theory Spec2Isabelle
  imports Main "HOL-Library.Sublist"
begin

section \<open>Go library functions used by the mirror\<close>

text \<open>
  Go strings are byte sequences; they are modelled as \<open>string\<close> (a list of
  characters). The functions of package \<open>strings\<close> that the sources call are
  written out below, each for the arguments the sources pass.
\<close>

definition HasPrefix :: "string \<Rightarrow> string \<Rightarrow> bool" where
  "HasPrefix s pre = prefix pre s"

definition HasSuffix :: "string \<Rightarrow> string \<Rightarrow> bool" where
  "HasSuffix s suf = prefix (rev suf) (rev s)"

definition TrimSuffix :: "string \<Rightarrow> string \<Rightarrow> string" where
  "TrimSuffix s suf = (if HasSuffix s suf then take (length s - length suf) s else s)"

text \<open>\<open>strings.Trim(s, cutset)\<close>: all leading and trailing bytes of the cutset removed.\<close>

definition Trim :: "string \<Rightarrow> string \<Rightarrow> string" where
  "Trim s cutset =
     rev (dropWhile (\<lambda>c. c \<in> set cutset) (rev (dropWhile (\<lambda>c. c \<in> set cutset) s)))"

text \<open>
  \<open>strings.Split(s, sep)\<close> for a one-byte separator. The result is never empty:
  splitting the empty string gives one empty piece.
\<close>

fun Split :: "string \<Rightarrow> char \<Rightarrow> string list" where
  "Split [] sep = [[]]"
| "Split (x # xs) sep =
     (if x = sep then [] # Split xs sep
      else (case Split xs sep of [] \<Rightarrow> [[x]] | y # ys \<Rightarrow> (x # y) # ys))"

text \<open>\<open>strings.Join(elems, sep)\<close>.\<close>

fun Join :: "string list \<Rightarrow> string \<Rightarrow> string" where
  "Join [] sep = []"
| "Join [e] sep = e"
| "Join (e # es) sep = e @ sep @ Join es sep"

fun Contains :: "string \<Rightarrow> string \<Rightarrow> bool" where
  "Contains [] sub = (sub = [])"
| "Contains (x # xs) sub = (prefix sub (x # xs) \<or> Contains xs sub)"

text \<open>
  \<open>strings.ReplaceAll(s, "..", "")\<close>: the non-overlapping occurrences of two dots
  are removed from left to right.
\<close>

fun ReplaceAll_dotdot :: "string \<Rightarrow> string" where
  "ReplaceAll_dotdot (a # b # xs) =
     (if a = CHR ''.'' \<and> b = CHR ''.'' then ReplaceAll_dotdot xs
      else a # ReplaceAll_dotdot (b # xs))"
| "ReplaceAll_dotdot xs = xs"

subsection \<open>Package path/filepath (Unix separator)\<close>

text \<open>
  \<open>filepath.Clean\<close> works through the path elements from left to right and keeps
  the elements of the result in a buffer. \<open>clean_push\<close> is one step of that loop
  on one element, the buffer being the list of kept elements, last one first:
  an empty element and \<open>.\<close> are dropped, \<open>..\<close> removes the last kept element when
  there is one that is not itself \<open>..\<close>, is dropped at the root of a rooted path
  and is kept otherwise, and any other element is kept.
\<close>

definition clean_push :: "bool \<Rightarrow> string list \<Rightarrow> string \<Rightarrow> string list" where
  "clean_push rooted st c =
     (if c = [] \<or> c = ''.'' then st
      else if c = ''..'' then
        (case st of
           [] \<Rightarrow> if rooted then [] else [''..'']
         | t # ts \<Rightarrow> if t = ''..'' then ''..'' # st else ts)
      else c # st)"

definition is_rooted :: "string \<Rightarrow> bool" where
  "is_rooted p = HasPrefix p ''/''"

definition clean_stack :: "string \<Rightarrow> string list" where
  "clean_stack p = foldl (clean_push (is_rooted p)) [] (Split p CHR ''/'')"

definition render :: "bool \<Rightarrow> string list \<Rightarrow> string" where
  "render rooted st = (if rooted then ''/'' else []) @ Join (rev st) ''/''"

definition Clean :: "string \<Rightarrow> string" where
  "Clean p =
     (if p = [] then ''.''
      else let out = render (is_rooted p) (clean_stack p)
           in if out = [] then ''.'' else out)"

text \<open>
  \<open>filepath.Join\<close>: the elements from the first non-empty one on are joined with
  the separator and the result is cleaned; with no non-empty element the result
  is the empty string.
\<close>

definition filepath_Join :: "string list \<Rightarrow> string" where
  "filepath_Join elem =
     (case dropWhile (\<lambda>e. e = []) elem of
        [] \<Rightarrow> []
      | es \<Rightarrow> Clean (Join es ''/''))"

text \<open>\<open>filepath.IsAbs\<close> on Unix.\<close>

definition IsAbs :: "string \<Rightarrow> bool" where
  "IsAbs p = HasPrefix p ''/''"

section \<open>Data model\<close>

text \<open>
  Error values. The handlers compare an error with the sentinels \<open>io.EOF\<close> and
  \<open>mirror.ErrNotFound\<close> by identity; every error made by \<open>errors.New\<close> or
  \<open>fmt.Errorf\<close>, and every error of the HTTP transport, is a value of its own and
  is modelled as \<open>Failure\<close> with the fixed part of its message.
\<close>

datatype error = EOF | ErrNotFound | Failure string

text \<open>
  \<open>types.go\<close>. A Go map is modelled as an association list; the order of the
  list is the order in which \<open>range\<close> visits the entries in the run at hand.
  An index response is the list of its version keys (the values are empty
  structs).
\<close>

record Archive =
  URL :: string
  Hashes :: "string list"

record VersionResponse =
  Archives :: "(string \<times> Archive) list"

record IndexResponse =
  Versions :: "string list"

record FilesystemStorage =
  cacheDir :: string

record UpstreamClient =
  uc_baseURL :: string
  uc_maxRetries :: int

record Mirror =
  storage :: FilesystemStorage
  upstream :: UpstreamClient
  baseURL :: string

text \<open>
  The files of the disk: a map from the path a file is opened with to its
  contents. Directories are not files of the map; they are created on demand
  by the writes.
\<close>

type_synonym files = "string \<Rightarrow> string option"

subsection \<open>What the code takes from outside\<close>

text \<open>
  The standard library and the world outside the process are parameters of the
  model, collected in one record: the JSON codec (\<open>json.Marshal\<close> and
  \<open>json.Unmarshal\<close> at each type the sources use them at, \<open>None\<close> being the
  error), \<open>url.Parse\<close> (scheme and decoded path of the parsed URL) and
  \<open>URL.ResolveReference\<close>, the HTTP transport (the answer to a GET of a URL at
  a given attempt; the body is \<open>None\<close> when reading it fails), whether the
  request context is done during the back-off after an attempt, the working
  directory (\<open>None\<close> when \<open>os.Getwd\<close> fails), whether an atomic write to a path
  succeeds, and \<open>computeH1Hash\<close> (ZIP extraction and \<open>dirhash.HashDir\<close>;
  \<open>None\<close> when it fails).
\<close>

datatype http_result = BadRequest | TransportError | Response nat "string option"

record url =
  Scheme :: string
  Path :: string

record world =
  marshalIndex :: "IndexResponse \<Rightarrow> string option"
  unmarshalIndex :: "string \<Rightarrow> IndexResponse option"
  marshalVersion :: "VersionResponse \<Rightarrow> string option"
  unmarshalVersion :: "string \<Rightarrow> VersionResponse option"
  unmarshalRegistryVersions :: "string \<Rightarrow> string list option"
  unmarshalDownloadInfo :: "string \<Rightarrow> (string \<times> string) option"
  urlParse :: "string \<Rightarrow> url option"
  resolveReference :: "string \<Rightarrow> string \<Rightarrow> string"
  httpDo :: "string \<Rightarrow> nat \<Rightarrow> http_result"
  ctxDone :: "string \<Rightarrow> nat \<Rightarrow> bool"
  getwd :: "string option"
  writeOK :: "string \<Rightarrow> bool"
  computeH1Hash :: "string \<Rightarrow> string option"

text \<open>\<open>filepath.Abs\<close>.\<close>

definition filepath_Abs :: "world \<Rightarrow> string \<Rightarrow> string option" where
  "filepath_Abs w p =
     (if IsAbs p then Some (Clean p)
      else (case getwd w of None \<Rightarrow> None | Some wd \<Rightarrow> Some (filepath_Join [wd, p])))"

section \<open>Filesystem storage\<close>

definition indexPath :: "FilesystemStorage \<Rightarrow> string \<Rightarrow> string \<Rightarrow> string \<Rightarrow> string" where
  "indexPath fs hostname namespace providerType =
     filepath_Join [cacheDir fs, hostname, namespace, providerType, ''index.json'']"

definition versionPath ::
  "FilesystemStorage \<Rightarrow> string \<Rightarrow> string \<Rightarrow> string \<Rightarrow> string \<Rightarrow> string" where
  "versionPath fs hostname namespace providerType version =
     filepath_Join [cacheDir fs, hostname, namespace, providerType, version @ ''.json'']"

text \<open>
  \<open>FilesystemStorage.archivePath\<close>: clean the path, remove every \<open>..\<close> that is
  left, strip one leading separator and join the result under the cache
  directory. \<open>sanitize\<close> is the value of the local variable \<open>sanitized\<close> at the
  return.
\<close>

definition sanitize :: "string \<Rightarrow> string" where
  "sanitize path =
     (let sanitized = Clean path;
          sanitized = (if Contains sanitized ''..'' then ReplaceAll_dotdot sanitized
                       else sanitized)
      in (if HasPrefix sanitized ''/'' then drop 1 sanitized else sanitized))"

definition archivePath :: "FilesystemStorage \<Rightarrow> string \<Rightarrow> string" where
  "archivePath fs path = filepath_Join [cacheDir fs, sanitize path]"

definition h1HashPath :: "FilesystemStorage \<Rightarrow> string \<Rightarrow> string" where
  "h1HashPath fs path = archivePath fs path @ ''.h1''"

definition upstreamURLPath :: "FilesystemStorage \<Rightarrow> string \<Rightarrow> string" where
  "upstreamURLPath fs path = archivePath fs path @ ''.upstream''"

definition readFile :: "world \<Rightarrow> FilesystemStorage \<Rightarrow> files \<Rightarrow> string \<Rightarrow> error + string" where
  "readFile w fs disk path =
     (case filepath_Abs w path of
        None \<Rightarrow> Inl (Failure ''failed to resolve path'')
      | Some absPath \<Rightarrow>
          (case filepath_Abs w (cacheDir fs) of
             None \<Rightarrow> Inl (Failure ''failed to resolve cache directory'')
           | Some absCacheDir \<Rightarrow>
               if \<not> HasPrefix absPath absCacheDir
               then Inl (Failure ''path is outside cache directory'')
               else (case disk path of None \<Rightarrow> Inl EOF | Some data \<Rightarrow> Inr data)))"

text \<open>
  \<open>writeFileAtomic\<close> writes a temporary file and renames it: either the file
  holds the new contents afterwards, or the write failed and the disk is as it
  was. The result is the error (\<open>None\<close> for \<open>nil\<close>) and the disk.
\<close>

definition writeFileAtomic :: "world \<Rightarrow> files \<Rightarrow> string \<Rightarrow> string \<Rightarrow> error option \<times> files" where
  "writeFileAtomic w disk path data =
     (if writeOK w path then (None, disk(path \<mapsto> data))
      else (Some (Failure ''failed to write file''), disk))"

definition storage_GetIndex ::
  "world \<Rightarrow> FilesystemStorage \<Rightarrow> files \<Rightarrow> string \<Rightarrow> string \<Rightarrow> string \<Rightarrow> error + string" where
  "storage_GetIndex w fs disk hostname namespace providerType =
     readFile w fs disk (indexPath fs hostname namespace providerType)"

definition storage_PutIndex ::
  "world \<Rightarrow> FilesystemStorage \<Rightarrow> files \<Rightarrow> string \<Rightarrow> string \<Rightarrow> string \<Rightarrow> string
   \<Rightarrow> error option \<times> files" where
  "storage_PutIndex w fs disk hostname namespace providerType data =
     writeFileAtomic w disk (indexPath fs hostname namespace providerType) data"

definition storage_GetVersion ::
  "world \<Rightarrow> FilesystemStorage \<Rightarrow> files \<Rightarrow> string \<Rightarrow> string \<Rightarrow> string \<Rightarrow> string
   \<Rightarrow> error + string" where
  "storage_GetVersion w fs disk hostname namespace providerType version =
     readFile w fs disk (versionPath fs hostname namespace providerType version)"

definition storage_PutVersion ::
  "world \<Rightarrow> FilesystemStorage \<Rightarrow> files \<Rightarrow> string \<Rightarrow> string \<Rightarrow> string \<Rightarrow> string \<Rightarrow> string
   \<Rightarrow> error option \<times> files" where
  "storage_PutVersion w fs disk hostname namespace providerType version data =
     writeFileAtomic w disk (versionPath fs hostname namespace providerType version) data"

text \<open>
  \<open>FilesystemStorage.GetArchive\<close> opens the file at \<open>archivePath\<close>; a file that
  does not exist is \<open>io.EOF\<close>. The reader it returns is modelled by the
  contents of the file.
\<close>

definition storage_GetArchive :: "FilesystemStorage \<Rightarrow> files \<Rightarrow> string \<Rightarrow> error + string" where
  "storage_GetArchive fs disk path =
     (case disk (archivePath fs path) of None \<Rightarrow> Inl EOF | Some data \<Rightarrow> Inr data)"

definition storage_PutArchive ::
  "world \<Rightarrow> FilesystemStorage \<Rightarrow> files \<Rightarrow> string \<Rightarrow> string \<Rightarrow> error option \<times> files" where
  "storage_PutArchive w fs disk path data =
     (let fullPath = archivePath fs path
      in if writeOK w fullPath then (None, disk(fullPath \<mapsto> data))
         else (Some (Failure ''failed to write archive''), disk))"


definition GetH1Hash :: "world \<Rightarrow> FilesystemStorage \<Rightarrow> files \<Rightarrow> string \<Rightarrow> error + string" where
  "GetH1Hash w fs disk path =
     (case readFile w fs disk (h1HashPath fs path) of
        Inl err \<Rightarrow> if err = EOF then Inr [] else Inl err
      | Inr data \<Rightarrow> Inr data)"

definition PutH1Hash ::
  "world \<Rightarrow> FilesystemStorage \<Rightarrow> files \<Rightarrow> string \<Rightarrow> string \<Rightarrow> error option \<times> files" where
  "PutH1Hash w fs disk path h1Hash = writeFileAtomic w disk (h1HashPath fs path) h1Hash"

definition GetUpstreamURL :: "world \<Rightarrow> FilesystemStorage \<Rightarrow> files \<Rightarrow> string \<Rightarrow> error + string" where
  "GetUpstreamURL w fs disk path =
     (case readFile w fs disk (upstreamURLPath fs path) of
        Inl err \<Rightarrow> if err = EOF then Inr [] else Inl err
      | Inr data \<Rightarrow> Inr data)"

definition PutUpstreamURL ::
  "world \<Rightarrow> FilesystemStorage \<Rightarrow> files \<Rightarrow> string \<Rightarrow> string \<Rightarrow> error option \<times> files" where
  "PutUpstreamURL w fs disk path upstreamURL =
     writeFileAtomic w disk (upstreamURLPath fs path) upstreamURL"

text \<open>
  What it means for a path to lie under a root, read off the text of the two
  paths: the path is the root or continues it after a separator (any rooted
  path when the root is \<open>/\<close>, any relative path when the root is \<open>.\<close>), and no
  element after the root is \<open>..\<close>.
\<close>

definition no_dotdot_elem :: "string \<Rightarrow> bool" where
  "no_dotdot_elem q = (''..'' \<notin> set (Split q CHR ''/''))"

definition within_root :: "string \<Rightarrow> string \<Rightarrow> bool" where
  "within_root root q =
     ((q = root \<or> HasPrefix q (root @ ''/'')) \<and> no_dotdot_elem (drop (length root) q)
      \<or> root = ''/'' \<and> HasPrefix q ''/'' \<and> no_dotdot_elem q
      \<or> root = ''.'' \<and> \<not> HasPrefix q ''/'' \<and> no_dotdot_elem q)"

definition real_elem :: "string \<Rightarrow> bool" where
  "real_elem c = (c \<noteq> [] \<and> c \<noteq> ''.'')"

section \<open>Upstream client\<close>

text \<open>
  \<open>UpstreamClient.fetch\<close>: the retry loop, from attempt \<open>attempt\<close> on, with
  the value of \<open>lastErr\<close>. The result is the error, or the body and the status
  (the callers read the status only when the error is \<open>nil\<close>).
\<close>

function fetch_from ::
  "world \<Rightarrow> UpstreamClient \<Rightarrow> string \<Rightarrow> nat \<Rightarrow> error option \<Rightarrow> error + (string \<times> nat)" where
  "fetch_from w uc u attempt lastErr =
     (if int attempt \<le> uc_maxRetries uc then
        (case httpDo w u attempt of
           BadRequest \<Rightarrow> Inl (Failure ''failed to create request'')
         | TransportError \<Rightarrow>
             if int attempt < uc_maxRetries uc \<and> ctxDone w u attempt
             then Inl (Failure ''context done'')
             else fetch_from w uc u (Suc attempt) (Some (Failure ''transport error''))
         | Response status body \<Rightarrow>
             if 400 \<le> status \<and> status < 500 then
               (case body of
                  None \<Rightarrow> Inl (Failure ''failed to read response body'')
                | Some b \<Rightarrow> Inr (b, status))
             else if 500 \<le> status then
               (if int attempt < uc_maxRetries uc then
                  (if ctxDone w u attempt then Inl (Failure ''context done'')
                   else fetch_from w uc u (Suc attempt) lastErr)
                else fetch_from w uc u (Suc attempt) (Some (Failure ''server error'')))
             else
               (case body of
                  None \<Rightarrow> Inl (Failure ''failed to read response body'')
                | Some b \<Rightarrow> Inr (b, status)))
      else (case lastErr of
              Some err \<Rightarrow> Inl err
            | None \<Rightarrow> Inl (Failure ''max retries exceeded'')))"
  by pat_completeness auto
termination
  by (relation "measure (\<lambda>(w, uc, u, attempt, lastErr). nat (uc_maxRetries uc + 1 - int attempt))")
    auto

declare fetch_from.simps [simp del]

definition fetch :: "world \<Rightarrow> UpstreamClient \<Rightarrow> string \<Rightarrow> error + (string \<times> nat)" where
  "fetch w uc u = fetch_from w uc u 0 None"

definition buildURL :: "UpstreamClient \<Rightarrow> string \<Rightarrow> string" where
  "buildURL uc path = uc_baseURL uc @ ''/'' @ path"

text \<open>
  The test that \<open>FetchIndex\<close> (twice) and \<open>FetchVersion\<close> make to choose the
  registry API over the mirror protocol.
\<close>

definition useRegistryAPI :: "UpstreamClient \<Rightarrow> string \<Rightarrow> bool" where
  "useRegistryAPI uc hostname =
     (hostname = ''registry.terraform.io'' \<or> uc_baseURL uc = ''https://registry.terraform.io'')"

text \<open>The URL that \<open>FetchIndex\<close> requests.\<close>

definition indexURL :: "UpstreamClient \<Rightarrow> string \<Rightarrow> string \<Rightarrow> string \<Rightarrow> string" where
  "indexURL uc hostname namespace providerType =
     (if useRegistryAPI uc hostname
      then uc_baseURL uc @ ''/v1/providers/'' @ namespace @ ''/'' @ providerType @ ''/versions''
      else buildURL uc (hostname @ ''/'' @ namespace @ ''/'' @ providerType @ ''/index.json''))"

definition convertRegistryAPIToIndexResponse :: "world \<Rightarrow> string \<Rightarrow> error + IndexResponse" where
  "convertRegistryAPIToIndexResponse w data =
     (case unmarshalRegistryVersions w data of
        None \<Rightarrow> Inl (Failure ''failed to parse registry API response'')
      | Some vs \<Rightarrow>
          Inr \<lparr>Versions = foldl (\<lambda>versions v. if v \<in> set versions then versions
                                                else versions @ [v]) [] vs\<rparr>)"

definition FetchIndex ::
  "world \<Rightarrow> UpstreamClient \<Rightarrow> string \<Rightarrow> string \<Rightarrow> string \<Rightarrow> error + IndexResponse" where
  "FetchIndex w uc hostname namespace providerType =
     (case fetch w uc (indexURL uc hostname namespace providerType) of
        Inl err \<Rightarrow> Inl err
      | Inr (body, status) \<Rightarrow>
          if status = 404 then Inl ErrNotFound
          else if status \<noteq> 200 then Inl (Failure ''unexpected status code'')
          else if useRegistryAPI uc hostname then convertRegistryAPIToIndexResponse w body
          else (case unmarshalIndex w body of
                  None \<Rightarrow> Inl (Failure ''failed to parse index response'')
                | Some response \<Rightarrow> Inr response))"

text \<open>The platforms that \<open>convertRegistryAPIToVersionResponse\<close> tries.\<close>

definition platforms :: "(string \<times> string) list" where
  "platforms =
     [(''linux'', ''amd64''), (''linux'', ''arm64''), (''darwin'', ''amd64''),
      (''darwin'', ''arm64''), (''windows'', ''amd64''), (''windows'', ''386''),
      (''freebsd'', ''amd64''), (''openbsd'', ''amd64'')]"

definition downloadURL ::
  "UpstreamClient \<Rightarrow> string \<Rightarrow> string \<Rightarrow> string \<Rightarrow> string \<times> string \<Rightarrow> string" where
  "downloadURL uc namespace providerType version platform =
     uc_baseURL uc @ ''/v1/providers/'' @ namespace @ ''/'' @ providerType @ ''/'' @ version
       @ ''/download/'' @ fst platform @ ''/'' @ snd platform"

text \<open>
  One round of the loop over the platforms, up to the assignment to the map:
  the archive the platform contributes, or \<open>None\<close> when the round ends in a
  \<open>continue\<close>.
\<close>

definition probe ::
  "world \<Rightarrow> UpstreamClient \<Rightarrow> string \<Rightarrow> string \<Rightarrow> string \<Rightarrow> string \<times> string \<Rightarrow> Archive option" where
  "probe w uc namespace providerType version platform =
     (case fetch w uc (downloadURL uc namespace providerType version platform) of
        Inl err \<Rightarrow> None
      | Inr (body, status) \<Rightarrow>
          if status = 404 then None
          else if status \<noteq> 200 then None
          else (case unmarshalDownloadInfo w body of
                  None \<Rightarrow> None
                | Some (download_url, shasum) \<Rightarrow>
                    Some \<lparr>URL = download_url, Hashes = [''zh:'' @ shasum]\<rparr>))"

text \<open>Assignment \<open>m[k] = v\<close> to a Go map.\<close>

fun map_assign :: "(string \<times> 'v) list \<Rightarrow> string \<Rightarrow> 'v \<Rightarrow> (string \<times> 'v) list" where
  "map_assign [] k v = [(k, v)]"
| "map_assign (e # es) k v = (if fst e = k then (k, v) # es else e # map_assign es k v)"

definition platformKey :: "string \<times> string \<Rightarrow> string" where
  "platformKey platform = fst platform @ ''_'' @ snd platform"

definition probe_round ::
  "world \<Rightarrow> UpstreamClient \<Rightarrow> string \<Rightarrow> string \<Rightarrow> string \<Rightarrow> (string \<times> Archive) list
   \<Rightarrow> string \<times> string \<Rightarrow> (string \<times> Archive) list" where
  "probe_round w uc namespace providerType version archives platform =
     (case probe w uc namespace providerType version platform of
        None \<Rightarrow> archives
      | Some archive \<Rightarrow> map_assign archives (platformKey platform) archive)"

definition convertRegistryAPIToVersionResponse ::
  "world \<Rightarrow> UpstreamClient \<Rightarrow> string \<Rightarrow> string \<Rightarrow> string \<Rightarrow> error + VersionResponse" where
  "convertRegistryAPIToVersionResponse w uc namespace providerType version =
     (let archives = foldl (probe_round w uc namespace providerType version) [] platforms
      in if length archives = 0 then Inl (Failure ''no platforms found for provider version'')
         else Inr \<lparr>Archives = archives\<rparr>)"

definition FetchVersion ::
  "world \<Rightarrow> UpstreamClient \<Rightarrow> string \<Rightarrow> string \<Rightarrow> string \<Rightarrow> string \<Rightarrow> error + VersionResponse" where
  "FetchVersion w uc hostname namespace providerType version =
     (if useRegistryAPI uc hostname
      then convertRegistryAPIToVersionResponse w uc namespace providerType version
      else (case fetch w uc (buildURL uc (hostname @ ''/'' @ namespace @ ''/'' @ providerType
                                            @ ''/'' @ version @ ''.json'')) of
              Inl err \<Rightarrow> Inl err
            | Inr (body, status) \<Rightarrow>
                if status = 404 then Inl ErrNotFound
                else if status \<noteq> 200 then Inl (Failure ''unexpected status code'')
                else (case unmarshalVersion w body of
                        None \<Rightarrow> Inl (Failure ''failed to parse version response'')
                      | Some response \<Rightarrow> Inr response)))"

definition isAbsoluteURL :: "world \<Rightarrow> string \<Rightarrow> bool" where
  "isAbsoluteURL w rawURL =
     (case urlParse w rawURL of None \<Rightarrow> False | Some u \<Rightarrow> Scheme u \<noteq> [])"

text \<open>
  \<open>FetchArchive\<close>: one GET, no retry. The result is the response body as the
  caller will read it (\<open>None\<close> when reading it fails).
\<close>

definition FetchArchive :: "world \<Rightarrow> UpstreamClient \<Rightarrow> string \<Rightarrow> error + string option" where
  "FetchArchive w uc archiveURL =
     (case (if \<not> isAbsoluteURL w archiveURL then
              (case urlParse w (uc_baseURL uc) of
                 None \<Rightarrow> Inl (Failure ''invalid base URL'')
               | Some b \<Rightarrow>
                   (case urlParse w archiveURL of
                      None \<Rightarrow> Inl (Failure ''invalid archive URL'')
                    | Some a \<Rightarrow> Inr (resolveReference w (uc_baseURL uc) archiveURL)))
            else Inr archiveURL) of
        Inl err \<Rightarrow> Inl err
      | Inr u \<Rightarrow>
          (case httpDo w u 0 of
             BadRequest \<Rightarrow> Inl (Failure ''failed to create request'')
           | TransportError \<Rightarrow> Inl (Failure ''failed to fetch archive'')
           | Response status body \<Rightarrow>
               if status \<noteq> 200 then Inl (Failure ''unexpected status code'') else Inr body))"

section \<open>Mirror\<close>

definition extractFilename :: "world \<Rightarrow> string \<Rightarrow> string" where
  "extractFilename w archiveURL =
     (case urlParse w archiveURL of
        None \<Rightarrow>
          (let parts = Split archiveURL CHR ''/''
           in if length parts > 0 then last parts else archiveURL)
      | Some u \<Rightarrow>
          (let parts = Split (Trim (Path u) ''/'') CHR ''/''
           in if length parts > 0 then last parts else ''archive.zip''))"

text \<open>
  The functions of the mirror take the disk and return their result with the
  disk they leave.
\<close>

definition GetIndex ::
  "world \<Rightarrow> Mirror \<Rightarrow> files \<Rightarrow> string \<Rightarrow> string \<Rightarrow> string \<Rightarrow> (error + string) \<times> files" where
  "GetIndex w m disk hostname namespace providerType =
     (case storage_GetIndex w (storage m) disk hostname namespace providerType of
        Inr cachedData \<Rightarrow> (Inr cachedData, disk)
      | Inl err \<Rightarrow>
          (case FetchIndex w (upstream m) hostname namespace providerType of
             Inl err \<Rightarrow> (Inl err, disk)
           | Inr response \<Rightarrow>
               (case marshalIndex w response of
                  None \<Rightarrow> (Inl (Failure ''failed to marshal index response''), disk)
                | Some data \<Rightarrow>
                    (Inr data,
                     snd (storage_PutIndex w (storage m) disk hostname namespace providerType
                            data)))))"

text \<open>The path of the archive in the mirror, as the rewrite step builds it.\<close>

definition localPath :: "string \<Rightarrow> string \<Rightarrow> string \<Rightarrow> string \<Rightarrow> string" where
  "localPath hostname namespace providerType filename =
     hostname @ ''/'' @ namespace @ ''/'' @ providerType @ ''/'' @ filename"

definition addH1 :: "string list \<Rightarrow> string \<Rightarrow> string list" where
  "addH1 hashes h1Hash =
     (if \<exists>hash \<in> set hashes. HasPrefix hash ''h1:'' then hashes else hashes @ [h1Hash])"

text \<open>One round of the loop of \<open>rewriteArchiveURLsWithH1\<close>, on one entry of the map.\<close>

definition rewrite_entry ::
  "world \<Rightarrow> Mirror \<Rightarrow> string \<Rightarrow> string \<Rightarrow> string \<Rightarrow> files \<Rightarrow> string \<times> Archive
   \<Rightarrow> (string \<times> Archive) \<times> files" where
  "rewrite_entry w m hostname namespace providerType disk entry =
     (let platform = fst entry; archive = snd entry
      in if URL archive \<noteq> [] then
           (let upstreamURL = URL archive;
                filename = extractFilename w (URL archive);
                apath = localPath hostname namespace providerType filename;
                disk1 = snd (PutUpstreamURL w (storage m) disk apath upstreamURL);
                archive1 = archive\<lparr>URL := TrimSuffix (baseURL m) ''/'' @ ''/'' @ apath\<rparr>;
                archive2 =
                  (case GetH1Hash w (storage m) disk1 apath of
                     Inl err \<Rightarrow> archive1
                   | Inr h1Hash \<Rightarrow>
                       if h1Hash \<noteq> [] then archive1\<lparr>Hashes := addH1 (Hashes archive1) h1Hash\<rparr>
                       else archive1)
            in ((platform, archive2), disk1))
         else (entry, disk))"

fun rewrite_entries ::
  "world \<Rightarrow> Mirror \<Rightarrow> string \<Rightarrow> string \<Rightarrow> string \<Rightarrow> files \<Rightarrow> (string \<times> Archive) list
   \<Rightarrow> (string \<times> Archive) list \<times> files" where
  "rewrite_entries w m hostname namespace providerType disk [] = ([], disk)"
| "rewrite_entries w m hostname namespace providerType disk (entry # entries) =
     (let (entry1, disk1) = rewrite_entry w m hostname namespace providerType disk entry;
          (entries1, disk2) = rewrite_entries w m hostname namespace providerType disk1 entries
      in (entry1 # entries1, disk2))"

definition rewriteArchiveURLsWithH1 ::
  "world \<Rightarrow> Mirror \<Rightarrow> files \<Rightarrow> string \<Rightarrow> string \<Rightarrow> string \<Rightarrow> string \<Rightarrow> (error + string) \<times> files" where
  "rewriteArchiveURLsWithH1 w m disk hostname namespace providerType data =
     (case unmarshalVersion w data of
        None \<Rightarrow> (Inl (Failure ''failed to parse version response''), disk)
      | Some response \<Rightarrow>
          (let (archives, disk1) =
                 rewrite_entries w m hostname namespace providerType disk (Archives response)
           in (case marshalVersion w (response\<lparr>Archives := archives\<rparr>) of
                 None \<Rightarrow> (Inl (Failure ''failed to marshal rewritten response''), disk1)
               | Some rewritten \<Rightarrow> (Inr rewritten, disk1))))"

definition GetVersion ::
  "world \<Rightarrow> Mirror \<Rightarrow> files \<Rightarrow> string \<Rightarrow> string \<Rightarrow> string \<Rightarrow> string \<Rightarrow> (error + string) \<times> files" where
  "GetVersion w m disk hostname namespace providerType version =
     (case storage_GetVersion w (storage m) disk hostname namespace providerType version of
        Inr cachedData \<Rightarrow>
          rewriteArchiveURLsWithH1 w m disk hostname namespace providerType cachedData
      | Inl err \<Rightarrow>
          (case FetchVersion w (upstream m) hostname namespace providerType version of
             Inl err \<Rightarrow> (Inl err, disk)
           | Inr response \<Rightarrow>
               (case marshalVersion w response of
                  None \<Rightarrow> (Inl (Failure ''failed to marshal version response''), disk)
                | Some data \<Rightarrow>
                    rewriteArchiveURLsWithH1 w m
                      (snd (storage_PutVersion w (storage m) disk hostname namespace providerType
                              version data))
                      hostname namespace providerType data)))"

definition notAvailable :: error where
  "notAvailable = Failure ''archive not found and upstream URL not available''"

definition GetArchive :: "world \<Rightarrow> Mirror \<Rightarrow> files \<Rightarrow> string \<Rightarrow> (error + string) \<times> files" where
  "GetArchive w m disk apath =
     (case storage_GetArchive (storage m) disk apath of
        Inr reader \<Rightarrow> (Inr reader, disk)
      | Inl err \<Rightarrow>
          (case GetUpstreamURL w (storage m) disk apath of
             Inl err \<Rightarrow> (Inl notAvailable, disk)
           | Inr upstreamURL \<Rightarrow>
               if upstreamURL = [] then (Inl notAvailable, disk)
               else
                 (case FetchArchive w (upstream m) upstreamURL of
                    Inl err \<Rightarrow> (Inl err, disk)
                  | Inr None \<Rightarrow> (Inl (Failure ''failed to read archive''), disk)
                  | Inr (Some archiveData) \<Rightarrow>
                      (let disk1 =
                             (case computeH1Hash w archiveData of
                                None \<Rightarrow> disk
                              | Some h1Hash \<Rightarrow>
                                  snd (PutH1Hash w (storage m) disk apath h1Hash))
                       in (case storage_PutArchive w (storage m) disk1 apath archiveData of
                             (Some err, disk2) \<Rightarrow> (Inl (Failure ''failed to cache archive''), disk2)
                           | (None, disk2) \<Rightarrow>
                               (storage_GetArchive (storage m) disk2 apath, disk2))))))"

section \<open>HTTP handlers\<close>

text \<open>
  A handler is modelled by the status and the body of its response, and the
  disk it leaves. Logging, metrics and the response headers are left out.
\<close>

record http_response =
  statusCode :: nat
  responseBody :: string

definition NotFound :: http_response where
  "NotFound = \<lparr>statusCode = 404, responseBody = ''404 page not found''\<rparr>"

definition InternalServerError :: http_response where
  "InternalServerError = \<lparr>statusCode = 500, responseBody = ''Internal Server Error''\<rparr>"

definition IndexHandler ::
  "world \<Rightarrow> Mirror \<Rightarrow> files \<Rightarrow> string \<Rightarrow> string \<Rightarrow> string \<Rightarrow> http_response \<times> files" where
  "IndexHandler w m disk hostname namespace providerType =
     (case GetIndex w m disk hostname namespace providerType of
        (Inl err, disk1) \<Rightarrow>
          if err = ErrNotFound then (NotFound, disk1) else (InternalServerError, disk1)
      | (Inr data, disk1) \<Rightarrow> (\<lparr>statusCode = 200, responseBody = data\<rparr>, disk1))"

definition VersionHandlerWithParams ::
  "world \<Rightarrow> Mirror \<Rightarrow> files \<Rightarrow> string \<Rightarrow> string \<Rightarrow> string \<Rightarrow> string \<Rightarrow> http_response \<times> files" where
  "VersionHandlerWithParams w m disk hostname namespace providerType version =
     (case GetVersion w m disk hostname namespace providerType version of
        (Inl err, disk1) \<Rightarrow>
          if err = ErrNotFound then (NotFound, disk1) else (InternalServerError, disk1)
      | (Inr data, disk1) \<Rightarrow> (\<lparr>statusCode = 200, responseBody = data\<rparr>, disk1))"

definition ArchiveHandlerForProvider ::
  "world \<Rightarrow> Mirror \<Rightarrow> files \<Rightarrow> string \<Rightarrow> string \<Rightarrow> string \<Rightarrow> string \<Rightarrow> http_response \<times> files" where
  "ArchiveHandlerForProvider w m disk hostname namespace providerType filename =
     (let apath = hostname @ ''/'' @ namespace @ ''/'' @ providerType @ ''/'' @ filename
      in (case GetArchive w m disk apath of
            (Inl err, disk1) \<Rightarrow>
              if err = EOF then (NotFound, disk1) else (InternalServerError, disk1)
          | (Inr reader, disk1) \<Rightarrow> (\<lparr>statusCode = 200, responseBody = reader\<rparr>, disk1)))"

definition MetadataHandler ::
  "world \<Rightarrow> Mirror \<Rightarrow> files \<Rightarrow> string \<Rightarrow> string \<Rightarrow> string \<Rightarrow> string \<Rightarrow> http_response \<times> files" where
  "MetadataHandler w m disk hostname namespace providerType tail =
     (if tail = ''index.json'' then IndexHandler w m disk hostname namespace providerType
      else if HasSuffix tail ''.json''
        then VersionHandlerWithParams w m disk hostname namespace providerType
               (TrimSuffix tail ''.json'')
      else if HasSuffix tail ''.zip''
        then ArchiveHandlerForProvider w m disk hostname namespace providerType tail
      else (NotFound, disk))"

section \<open>The states the mirror reaches\<close>

text \<open>
  The disks that the operations of a mirror produce from the empty cache, in
  any worlds that share the working directory of the process.
\<close>

inductive reachable :: "Mirror \<Rightarrow> string option \<Rightarrow> files \<Rightarrow> bool" for m :: Mirror and wd :: "string option" where
  reach_empty: "reachable m wd Map.empty"
| reach_GetIndex:
    "reachable m wd disk \<Longrightarrow> getwd w = wd \<Longrightarrow>
     reachable m wd (snd (GetIndex w m disk hostname namespace providerType))"
| reach_GetVersion:
    "reachable m wd disk \<Longrightarrow> getwd w = wd \<Longrightarrow>
     reachable m wd (snd (GetVersion w m disk hostname namespace providerType version))"
| reach_GetArchive:
    "reachable m wd disk \<Longrightarrow> getwd w = wd \<Longrightarrow>
     reachable m wd (snd (GetArchive w m disk apath))"

section \<open>Example worlds\<close>

text \<open>
  The concrete inputs of the examples. In \<open>quiet_world\<close> every request is
  answered 404 and the codec knows no document; the other worlds change the
  fields an example needs. Where a world gives \<open>json.Unmarshal\<close>,
  \<open>json.Marshal\<close> or \<open>url.Parse\<close>, it gives them as a table of the documents
  and URLs of the example: each row is what the Go function returns there.
\<close>

definition quiet_world :: world where
  "quiet_world =
     \<lparr>marshalIndex = (\<lambda>r. None), unmarshalIndex = (\<lambda>s. None),
      marshalVersion = (\<lambda>r. None), unmarshalVersion = (\<lambda>s. None),
      unmarshalRegistryVersions = (\<lambda>s. None), unmarshalDownloadInfo = (\<lambda>s. None),
      urlParse = (\<lambda>s. None), resolveReference = (\<lambda>b r. r),
      httpDo = (\<lambda>u n. Response 404 (Some [])), ctxDone = (\<lambda>u n. False),
      getwd = Some ''/'', writeOK = (\<lambda>p. True), computeH1Hash = (\<lambda>d. None)\<rparr>"

definition mirror0 :: Mirror where
  "mirror0 =
     \<lparr>storage = \<lparr>cacheDir = ''/cache''\<rparr>,
      upstream = \<lparr>uc_baseURL = ''https://upstream.example'', uc_maxRetries = 3\<rparr>,
      baseURL = ''http://mirror.example''\<rparr>"

definition garbage_disk :: files where
  "garbage_disk =
     [''/cache/registry.example/hashicorp/aws/5.0.0.json'' \<mapsto> ''not json'',
      ''/cache/registry.example/hashicorp/aws/index.json'' \<mapsto> ''not json either'']"

text \<open>
  An upstream that speaks the mirror protocol only: it serves the index and
  one manifest of \<open>registry.terraform.io/hashicorp/aws\<close> at the paths of the
  mirror protocol and answers 404 to everything else.
\<close>

definition static_upstream :: world where
  "static_upstream =
     quiet_world\<lparr>httpDo := (\<lambda>u n.
        if u = ''https://upstream.example/registry.terraform.io/hashicorp/aws/index.json''
          then Response 200 (Some ''index-5.0.0'')
        else if u = ''https://upstream.example/registry.terraform.io/hashicorp/aws/5.0.0.json''
          then Response 200 (Some ''manifest-5.0.0'')
        else Response 404 (Some [])),
      unmarshalIndex := (\<lambda>s. if s = ''index-5.0.0'' then Some \<lparr>Versions = [''5.0.0'']\<rparr> else None),
      unmarshalVersion := (\<lambda>s. if s = ''manifest-5.0.0''
          then Some \<lparr>Archives = [(''linux_amd64'',
                 \<lparr>URL = ''https://origin.example/aws_5.0.0_linux_amd64.zip'', Hashes = [''zh:abc'']\<rparr>)]\<rparr>
          else None)\<rparr>"

text \<open>
  The registry API as upstream. In \<open>registry_upstream\<close> five of the eight
  platform probes of \<open>hashicorp/aws 5.0.0\<close> are answered 200 with a download
  document and the other three 404. In \<open>registry_203\<close> the only answer that is
  not 404 is a 203 (a 2xx status) with a download document.
\<close>

definition registry_client :: UpstreamClient where
  "registry_client = \<lparr>uc_baseURL = ''https://registry.terraform.io'', uc_maxRetries = 3\<rparr>"

definition download_prefix :: string where
  "download_prefix = ''https://registry.terraform.io/v1/providers/hashicorp/aws/5.0.0/download/''"

definition registry_upstream :: world where
  "registry_upstream =
     quiet_world\<lparr>httpDo := (\<lambda>u n.
        if u \<in> {download_prefix @ ''linux/amd64'', download_prefix @ ''linux/arm64'',
                 download_prefix @ ''darwin/amd64'', download_prefix @ ''darwin/arm64'',
                 download_prefix @ ''windows/amd64''}
        then Response 200 (Some (''download-info:'' @ drop (length download_prefix) u))
        else Response 404 (Some [])),
      unmarshalDownloadInfo := (\<lambda>s.
        if HasPrefix s ''download-info:''
        then Some (''https://releases.example/'' @ drop 14 s @ ''.zip'', ''sha-'' @ drop 14 s)
        else None)\<rparr>"

definition registry_203 :: world where
  "registry_203 =
     quiet_world\<lparr>httpDo := (\<lambda>u n.
        if u = download_prefix @ ''linux/amd64''
        then Response 203 (Some ''download-info:linux/amd64'')
        else Response 404 (Some [])),
      unmarshalDownloadInfo := (\<lambda>s.
        if s = ''download-info:linux/amd64''
        then Some (''https://releases.example/linux/amd64.zip'', ''sha-linux/amd64'')
        else None)\<rparr>"

section \<open>Notions of the proofs\<close>

text \<open>Two disks that hold the same files, but for the upstream-URL sidecars.\<close>

definition agree_off_upstream :: "files \<Rightarrow> files \<Rightarrow> bool" where
  "agree_off_upstream d d' = (\<forall>q. \<not> HasSuffix q ''.upstream'' \<longrightarrow> d q = d' q)"

text \<open>
  An upstream whose manifest of \<open>registry.example/hashicorp/aws 5.0.0\<close> has an
  entry with the empty url (\<open>url\<close> is a plain string field: the empty string
  is what a document without the field decodes to as well).
\<close>

definition doc_empty_url :: string where
  \<open>doc_empty_url = ''{"archives":{"linux_amd64":{"url":""}}}''\<close>

definition manifest_empty_url :: VersionResponse where
  "manifest_empty_url = \<lparr>Archives = [(''linux_amd64'', \<lparr>URL = [], Hashes = []\<rparr>)]\<rparr>"

definition empty_url_upstream :: world where
  "empty_url_upstream =
     quiet_world\<lparr>httpDo := (\<lambda>u n.
        if u = ''https://upstream.example/registry.example/hashicorp/aws/5.0.0.json''
        then Response 200 (Some doc_empty_url) else Response 404 (Some [])),
      unmarshalVersion := map_of [(doc_empty_url, manifest_empty_url)],
      marshalVersion := map_of [(manifest_empty_url, doc_empty_url)]\<rparr>"
text \<open>
  The upstream of the scenarios of the specification: a mirror-protocol
  upstream at \<open>https://upstream.example\<close> with one manifest, whose archive is
  served by \<open>https://origin.example\<close>. The documents are the raw manifest, the
  manifest as the mirror rewrites it, and the rewritten manifest with the h1
  hash of the archive.
\<close>

definition doc_raw :: string where
  \<open>doc_raw = ''{"archives":{"linux_amd64":{"url":"https://origin.example/aws_5.0.0_linux_amd64.zip","hashes":["zh:abc"]}}}''\<close>

definition doc_rewritten :: string where
  \<open>doc_rewritten = ''{"archives":{"linux_amd64":{"url":"http://mirror.example/registry.example/hashicorp/aws/aws_5.0.0_linux_amd64.zip","hashes":["zh:abc"]}}}''\<close>

definition doc_rewritten_h1 :: string where
  \<open>doc_rewritten_h1 = ''{"archives":{"linux_amd64":{"url":"http://mirror.example/registry.example/hashicorp/aws/aws_5.0.0_linux_amd64.zip","hashes":["zh:abc","h1:47DEQpj8HBSa+/TImW+5JCeuQeRkm5NMpJWZG3hSuFU="]}}}''\<close>

definition origin_zip :: string where
  "origin_zip = ''https://origin.example/aws_5.0.0_linux_amd64.zip''"

definition mirror_zip :: string where
  "mirror_zip = ''http://mirror.example/registry.example/hashicorp/aws/aws_5.0.0_linux_amd64.zip''"

definition h1_of_zip :: string where
  "h1_of_zip = ''h1:47DEQpj8HBSa+/TImW+5JCeuQeRkm5NMpJWZG3hSuFU=''"

definition manifest_raw :: VersionResponse where
  "manifest_raw = \<lparr>Archives = [(''linux_amd64'', \<lparr>URL = origin_zip, Hashes = [''zh:abc'']\<rparr>)]\<rparr>"

definition manifest_rewritten :: VersionResponse where
  "manifest_rewritten =
     \<lparr>Archives = [(''linux_amd64'', \<lparr>URL = mirror_zip, Hashes = [''zh:abc'']\<rparr>)]\<rparr>"

definition manifest_rewritten_h1 :: VersionResponse where
  "manifest_rewritten_h1 =
     \<lparr>Archives = [(''linux_amd64'', \<lparr>URL = mirror_zip, Hashes = [''zh:abc'', h1_of_zip]\<rparr>)]\<rparr>"

definition origin_world :: world where
  "origin_world =
     quiet_world\<lparr>httpDo := (\<lambda>u n.
        if u = ''https://upstream.example/registry.example/hashicorp/aws/5.0.0.json''
          then Response 200 (Some doc_raw)
        else if u = origin_zip then Response 200 (Some ''PK-aws-5.0.0-linux-amd64'')
        else Response 404 (Some [])),
      unmarshalVersion := map_of [(doc_raw, manifest_raw), (doc_rewritten, manifest_rewritten),
                                  (doc_rewritten_h1, manifest_rewritten_h1)],
      marshalVersion := map_of [(manifest_raw, doc_raw), (manifest_rewritten, doc_rewritten),
                                (manifest_rewritten_h1, doc_rewritten_h1)],
      urlParse := map_of
        [(origin_zip, \<lparr>Scheme = ''https'', Path = ''/aws_5.0.0_linux_amd64.zip''\<rparr>),
         (mirror_zip, \<lparr>Scheme = ''http'',
                       Path = ''/registry.example/hashicorp/aws/aws_5.0.0_linux_amd64.zip''\<rparr>)],
      computeH1Hash := (\<lambda>data. if data = ''PK-aws-5.0.0-linux-amd64'' then Some h1_of_zip else None)\<rparr>"


text \<open>
  A manifest whose archive url has an escaped question mark in its last path
  segment. \<open>url.Parse\<close> decodes the path of the first url to \<open>/dl/a?b.zip\<close>,
  and reads the \<open>?\<close> of the rewritten url as the start of the query.
\<close>

definition doc_q0 :: string where
  \<open>doc_q0 = ''{"archives":{"linux_amd64":{"url":"https://origin.example/dl/a%3Fb.zip"}}}''\<close>

definition doc_q1 :: string where
  \<open>doc_q1 = ''{"archives":{"linux_amd64":{"url":"http://mirror.example/registry.example/hashicorp/aws/a?b.zip"}}}''\<close>

definition doc_q2 :: string where
  \<open>doc_q2 = ''{"archives":{"linux_amd64":{"url":"http://mirror.example/registry.example/hashicorp/aws/a"}}}''\<close>

definition manifest_with_url :: "string \<Rightarrow> VersionResponse" where
  "manifest_with_url u = \<lparr>Archives = [(''linux_amd64'', \<lparr>URL = u, Hashes = []\<rparr>)]\<rparr>"

definition query_world :: world where
  "query_world =
     quiet_world\<lparr>
      unmarshalVersion := map_of
        [(doc_q0, manifest_with_url ''https://origin.example/dl/a%3Fb.zip''),
         (doc_q1, manifest_with_url ''http://mirror.example/registry.example/hashicorp/aws/a?b.zip''),
         (doc_q2, manifest_with_url ''http://mirror.example/registry.example/hashicorp/aws/a'')],
      marshalVersion := map_of
        [(manifest_with_url ''https://origin.example/dl/a%3Fb.zip'', doc_q0),
         (manifest_with_url ''http://mirror.example/registry.example/hashicorp/aws/a?b.zip'', doc_q1),
         (manifest_with_url ''http://mirror.example/registry.example/hashicorp/aws/a'', doc_q2)],
      urlParse := map_of
        [(''https://origin.example/dl/a%3Fb.zip'', \<lparr>Scheme = ''https'', Path = ''/dl/a?b.zip''\<rparr>),
         (''http://mirror.example/registry.example/hashicorp/aws/a?b.zip'',
          \<lparr>Scheme = ''http'', Path = ''/registry.example/hashicorp/aws/a''\<rparr>),
         (''http://mirror.example/registry.example/hashicorp/aws/a'',
          \<lparr>Scheme = ''http'', Path = ''/registry.example/hashicorp/aws/a''\<rparr>)]\<rparr>"

text \<open>The cache after the archive of the scenario was fetched once: its h1 sidecar.\<close>

definition disk_with_h1 :: files where
  "disk_with_h1 =
     [''/cache/registry.example/hashicorp/aws/aws_5.0.0_linux_amd64.zip.h1'' \<mapsto> h1_of_zip]"

text \<open>
  A manifest with two platforms. \<open>json.Marshal\<close> writes the keys of a map in
  sorted order, whatever the order in which the map is iterated, and the
  order in which the entries of a decoded map are iterated is not the order
  of the document: the table decodes the raw document to the entries in one
  order and the rewritten document to the entries in the other.
\<close>

definition doc2_raw :: string where
  \<open>doc2_raw = ''{"archives":{"darwin_arm64":{"url":"https://origin.example/aws_5.0.0_darwin_arm64.zip","hashes":["zh:def"]},"linux_amd64":{"url":"https://origin.example/aws_5.0.0_linux_amd64.zip","hashes":["zh:abc"]}}}''\<close>

definition doc2_rewritten :: string where
  \<open>doc2_rewritten = ''{"archives":{"darwin_arm64":{"url":"http://mirror.example/registry.example/hashicorp/aws/aws_5.0.0_darwin_arm64.zip","hashes":["zh:def"]},"linux_amd64":{"url":"http://mirror.example/registry.example/hashicorp/aws/aws_5.0.0_linux_amd64.zip","hashes":["zh:abc","h1:47DEQpj8HBSa+/TImW+5JCeuQeRkm5NMpJWZG3hSuFU="]}}}''\<close>

definition origin_zip_darwin :: string where
  "origin_zip_darwin = ''https://origin.example/aws_5.0.0_darwin_arm64.zip''"

definition mirror_zip_darwin :: string where
  "mirror_zip_darwin = ''http://mirror.example/registry.example/hashicorp/aws/aws_5.0.0_darwin_arm64.zip''"

definition entries2_raw :: "(string \<times> Archive) list" where
  "entries2_raw =
     [(''linux_amd64'', \<lparr>URL = origin_zip, Hashes = [''zh:abc'']\<rparr>),
      (''darwin_arm64'', \<lparr>URL = origin_zip_darwin, Hashes = [''zh:def'']\<rparr>)]"

definition entries2_rewritten :: "(string \<times> Archive) list" where
  "entries2_rewritten =
     [(''darwin_arm64'', \<lparr>URL = mirror_zip_darwin, Hashes = [''zh:def'']\<rparr>),
      (''linux_amd64'', \<lparr>URL = mirror_zip, Hashes = [''zh:abc'', h1_of_zip]\<rparr>)]"

definition marshal2 :: "VersionResponse \<Rightarrow> string option" where
  "marshal2 r =
     (if set (Archives r) = set entries2_raw then Some doc2_raw
      else if set (Archives r) = set entries2_rewritten then Some doc2_rewritten
      else None)"

definition two_platform_world :: world where
  "two_platform_world =
     quiet_world\<lparr>
      unmarshalVersion := map_of [(doc2_raw, \<lparr>Archives = entries2_raw\<rparr>),
                                  (doc2_rewritten, \<lparr>Archives = entries2_rewritten\<rparr>)],
      marshalVersion := marshal2,
      urlParse := map_of
        [(origin_zip, \<lparr>Scheme = ''https'', Path = ''/aws_5.0.0_linux_amd64.zip''\<rparr>),
         (origin_zip_darwin, \<lparr>Scheme = ''https'', Path = ''/aws_5.0.0_darwin_arm64.zip''\<rparr>),
         (mirror_zip, \<lparr>Scheme = ''http'',
                       Path = ''/registry.example/hashicorp/aws/aws_5.0.0_linux_amd64.zip''\<rparr>),
         (mirror_zip_darwin, \<lparr>Scheme = ''http'',
                       Path = ''/registry.example/hashicorp/aws/aws_5.0.0_darwin_arm64.zip''\<rparr>)]\<rparr>"






section \<open>Properties of the path functions\<close>

lemmas path_eval = archivePath_def sanitize_def Clean_def clean_stack_def clean_push_def
  render_def is_rooted_def HasPrefix_def filepath_Join_def versionPath_def indexPath_def
  upstreamURLPath_def h1HashPath_def filepath_Abs_def IsAbs_def

lemma Split_not_Nil [simp]: "Split s sep \<noteq> []"
  by (induction s) (auto split: list.splits)

lemma Split_append_sep: "Split (a @ sep # b) sep = Split a sep @ Split b sep"
  by (induction a) (auto split: list.splits)

lemma Split_no_sep: "c \<in> set (Split s sep) \<Longrightarrow> sep \<notin> set c"
  by (induction s arbitrary: c) (auto split: list.splits if_splits)

lemma hd_Split_prefix: "prefix (hd (Split s sep)) s"
  by (induction s) (auto split: list.splits)

lemma Contains_Nil [simp]: "Contains s []"
  by (cases s) auto

lemma Split_Contains: "c \<in> set (Split s sep) \<Longrightarrow> Contains s c"
proof (induction s arbitrary: c)
  case Nil
  then show ?case by simp
next
  case (Cons x xs)
  show ?case
  proof (cases "x = sep")
    case True
    with Cons show ?thesis by auto
  next
    case False
    obtain y ys where sp: "Split xs sep = y # ys"
      by (cases "Split xs sep") auto
    have py: "prefix y xs" using hd_Split_prefix[of xs sep] sp by simp
    from Cons.prems False sp have "c = x # y \<or> c \<in> set ys" by auto
    then show ?thesis
    proof
      assume "c = x # y"
      with py show ?thesis by simp
    next
      assume "c \<in> set ys"
      then have "c \<in> set (Split xs sep)" using sp by simp
      then have "Contains xs c" by (rule Cons.IH)
      then show ?thesis by simp
    qed
  qed
qed

lemma ReplaceAll_dotdot_hd:
  "b \<noteq> CHR ''.'' \<Longrightarrow> \<exists>ys. ReplaceAll_dotdot (b # xs) = b # ys"
  by (cases xs) auto

lemma ReplaceAll_dotdot_clean: "\<not> Contains (ReplaceAll_dotdot s) ''..''"
proof (induction s rule: ReplaceAll_dotdot.induct)
  case (1 a b xs)
  show ?case
  proof (cases "a = CHR ''.'' \<and> b = CHR ''.''")
    case True
    with 1 show ?thesis by simp
  next
    case False
    with 1 have ih: "\<not> Contains (ReplaceAll_dotdot (b # xs)) ''..''" by simp
    show ?thesis
    proof (cases "a = CHR ''.''")
      case True
      with False have "b \<noteq> CHR ''.''" by simp
      then obtain ys where "ReplaceAll_dotdot (b # xs) = b # ys"
        using ReplaceAll_dotdot_hd by blast
      with ih False \<open>b \<noteq> CHR ''.''\<close> show ?thesis by simp
    next
      case f2: False
      with ih False show ?thesis by simp
    qed
  qed
qed simp_all

lemma Contains_drop1: "Contains (drop 1 s) sub \<Longrightarrow> Contains s sub"
  by (cases s) auto

lemma foldl_clean_push_nodd:
  "''..'' \<notin> set cs \<Longrightarrow>
   foldl (clean_push r) st cs = rev (filter real_elem cs) @ st"
  by (induction cs arbitrary: st) (auto simp: clean_push_def real_elem_def)

lemma clean_push_nonempty:
  "\<forall>c\<in>set st. c \<noteq> [] \<Longrightarrow> \<forall>c\<in>set (clean_push r st x). c \<noteq> []"
  by (auto simp: clean_push_def split: list.splits)

lemma foldl_clean_push_nonempty:
  "\<forall>c\<in>set st. c \<noteq> [] \<Longrightarrow> \<forall>c\<in>set (foldl (clean_push r) st cs). c \<noteq> []"
proof (induction cs arbitrary: st)
  case Nil
  then show ?case by simp
next
  case (Cons x cs)
  have "\<forall>c\<in>set (clean_push r st x). c \<noteq> []"
    using Cons.prems by (rule clean_push_nonempty)
  then show ?case using Cons.IH by simp
qed

lemma clean_stack_nonempty: "c \<in> set (clean_stack p) \<Longrightarrow> c \<noteq> []"
  using foldl_clean_push_nonempty[of "[]" "is_rooted p" "Split p CHR ''/''"]
  by (auto simp: clean_stack_def)

lemma is_rooted_append: "cd \<noteq> [] \<Longrightarrow> is_rooted (cd @ s) = is_rooted cd"
  by (cases cd) (auto simp: is_rooted_def HasPrefix_def)

lemma clean_stack_append:
  assumes "cd \<noteq> []"
  shows "clean_stack (cd @ CHR ''/'' # s) =
         foldl (clean_push (is_rooted cd)) (clean_stack cd) (Split s CHR ''/'')"
  using assms by (simp add: clean_stack_def Split_append_sep is_rooted_append)

lemma Join_as_concat: "Join (x # xs) sep = x @ concat (map (\<lambda>c. sep @ c) xs)"
  by (induction xs arbitrary: x) auto

lemma Join_append:
  "xs \<noteq> [] \<Longrightarrow> Join (xs @ ys) sep = Join xs sep @ concat (map (\<lambda>c. sep @ c) ys)"
  by (cases xs) (simp_all add: Join_as_concat)

lemma Split_single: "CHR ''/'' \<notin> set c \<Longrightarrow> Split c CHR ''/'' = [c]"
  by (induction c) auto

lemma Split_elems:
  "CHR ''/'' \<notin> set x \<Longrightarrow> \<forall>c\<in>set xs. CHR ''/'' \<notin> set c \<Longrightarrow>
   Split (x @ concat (map (\<lambda>c. ''/'' @ c) xs)) CHR ''/'' = x # xs"
proof (induction xs arbitrary: x)
  case Nil
  then show ?case by (simp add: Split_single)
next
  case (Cons d ds)
  have "Split (d @ concat (map (\<lambda>c. ''/'' @ c) ds)) CHR ''/'' = d # ds"
    using Cons.IH[of d] Cons.prems by simp
  then show ?case using Cons.prems
    by (simp add: Split_append_sep Split_single)
qed

lemma Split_concat_sep:
  "\<forall>c\<in>set rest. CHR ''/'' \<notin> set c \<Longrightarrow>
   Split (concat (map (\<lambda>c. ''/'' @ c) rest)) CHR ''/'' = [] # rest"
  using Split_elems[of "[]" rest] by simp

lemma Split_Join:
  assumes "\<forall>c\<in>set rest. CHR ''/'' \<notin> set c" "rest \<noteq> []"
  shows "Split (Join rest ''/'') CHR ''/'' = rest"
proof -
  obtain x xs where r: "rest = x # xs" using assms(2) by (cases rest) auto
  then show ?thesis using assms(1) Split_elems[of x xs]
    by (simp add: Join_as_concat)
qed

lemma sanitize_no_dotdot: "\<not> Contains (sanitize p) ''..''"
proof -
  define c where "c = Clean p"
  define d where "d = (if Contains c ''..'' then ReplaceAll_dotdot c else c)"
  have d: "\<not> Contains d ''..''"
    unfolding d_def using ReplaceAll_dotdot_clean[of c] by (cases "Contains c ''..''") simp_all
  have "sanitize p = (if HasPrefix d ''/'' then drop 1 d else d)"
    unfolding sanitize_def Let_def d_def c_def by (rule refl)
  moreover have "\<not> Contains (drop 1 d) ''..''"
    using d Contains_drop1[of d "''..''"] by blast
  ultimately show ?thesis using d by (cases "HasPrefix d ''/''") simp_all
qed

lemma sanitize_elems: "''..'' \<notin> set (Split (sanitize p) CHR ''/'')"
  using sanitize_no_dotdot[of p] Split_Contains[of "''..''" "sanitize p" "CHR ''/''"] by blast

lemma real_elems_no_sep:
  "c \<in> set (filter real_elem (Split s CHR ''/'')) \<Longrightarrow> CHR ''/'' \<notin> set c"
  using Split_no_sep[of c s "CHR ''/''"] by simp

lemma real_elems_nonempty: "c \<in> set (filter real_elem xs) \<Longrightarrow> c \<noteq> []"
  by (simp add: real_elem_def)

lemma real_elems_no_dotdot: "d \<notin> set xs \<Longrightarrow> d \<notin> set (filter real_elem xs)"
  by simp

lemma Join_not_rooted:
  assumes "\<forall>c\<in>set rest. CHR ''/'' \<notin> set c" "\<forall>c\<in>set rest. c \<noteq> []"
  shows "\<not> HasPrefix (Join rest ''/'') ''/''"
proof (cases rest)
  case Nil
  then show ?thesis by (simp add: HasPrefix_def)
next
  case (Cons a list)
  with assms obtain b bs where a: "a = b # bs" "b \<noteq> CHR ''/''"
    by (cases a) auto
  then show ?thesis using Cons by (simp add: Join_as_concat HasPrefix_def)
qed

lemma Join_nonempty:
  assumes "xs \<noteq> []" "\<forall>c\<in>set xs. c \<noteq> []"
  shows "Join xs sep \<noteq> []"
  using assms by (cases xs) (simp_all add: Join_as_concat)

lemma render_under:
  fixes r :: bool and st rest :: "string list"
  assumes sl: "\<forall>c\<in>set rest. CHR ''/'' \<notin> set c"
      and ne: "\<forall>c\<in>set rest. c \<noteq> []"
      and dd: "''..'' \<notin> set rest"
      and st: "\<forall>c\<in>set st. c \<noteq> []"
  shows "within_root (if render r st = [] then ''.'' else render r st)
           (if render r (rev rest @ st) = [] then ''.'' else render r (rev rest @ st))"
proof -
  define root where "root = (if render r st = [] then ''.'' else render r st)"
  define q where "q = (if render r (rev rest @ st) = [] then ''.'' else render r (rev rest @ st))"
  have "within_root root q"
  proof (cases "st = []")
    case True
    show ?thesis
    proof (cases r)
      case True
      with \<open>st = []\<close> have root: "root = ''/''" by (simp add: root_def render_def)
      from True \<open>st = []\<close> have q: "q = CHR ''/'' # Join rest ''/''"
        by (simp add: q_def render_def)
      have "Split q CHR ''/'' = [] # Split (Join rest ''/'') CHR ''/''"
        by (simp add: q)
      moreover have "''..'' \<notin> set (Split (Join rest ''/'') CHR ''/'')"
        using Split_Join[OF sl] dd by (cases "rest = []") auto
      ultimately have "no_dotdot_elem q" by (simp add: no_dotdot_elem_def)
      then show ?thesis using root q by (simp add: within_root_def HasPrefix_def)
    next
      case False
      with \<open>st = []\<close> have root: "root = ''.''" by (simp add: root_def render_def)
      show ?thesis
      proof (cases "rest = []")
        case True
        with False \<open>st = []\<close> have "q = ''.''" by (simp add: q_def render_def)
        then show ?thesis using root
          by (simp add: within_root_def HasPrefix_def no_dotdot_elem_def)
      next
        case ne': False
        then have "Join rest ''/'' \<noteq> []" using ne by (intro Join_nonempty) simp_all
        with False \<open>st = []\<close> have q: "q = Join rest ''/''" by (simp add: q_def render_def)
        have "no_dotdot_elem q" using Split_Join[OF sl ne'] dd by (simp add: q no_dotdot_elem_def)
        moreover have "\<not> HasPrefix q ''/''" using Join_not_rooted[OF sl ne] q by simp
        ultimately show ?thesis using root by (simp add: within_root_def)
      qed
    qed
  next
    case False
    then have rs: "rev st \<noteq> []" by simp
    have jne: "Join (rev st) ''/'' \<noteq> []"
      using rs st by (intro Join_nonempty) simp_all
    then have rne: "render r st \<noteq> []" by (simp add: render_def)
    then have root: "root = render r st" by (simp add: root_def)
    have "render r (rev rest @ st) = render r st @ concat (map (\<lambda>c. ''/'' @ c) rest)"
      using Join_append[OF rs, of rest "''/''"] by (simp add: render_def)
    then have q: "q = root @ concat (map (\<lambda>c. ''/'' @ c) rest)"
      using rne root by (simp add: q_def)
    have "no_dotdot_elem (drop (length root) q)"
      using Split_concat_sep[OF sl] dd by (simp add: q no_dotdot_elem_def)
    moreover have "q = root \<or> HasPrefix q (root @ ''/'')"
      by (cases rest) (simp_all add: q HasPrefix_def)
    ultimately show ?thesis by (simp add: within_root_def)
  qed
  then show ?thesis by (simp add: root_def q_def)
qed

lemma archivePath_within_root:
  assumes "cacheDir fs \<noteq> []"
  shows "within_root (Clean (cacheDir fs)) (archivePath fs p)"
proof -
  define cd where "cd = cacheDir fs"
  define s where "s = sanitize p"
  define rest where "rest = filter real_elem (Split s CHR ''/'')"
  have cd: "cd \<noteq> []" using assms by (simp add: cd_def)
  have nd: "''..'' \<notin> set (Split s CHR ''/'')" unfolding s_def by (rule sanitize_elems)
  have p1: "\<forall>c\<in>set rest. CHR ''/'' \<notin> set c"
    unfolding rest_def using real_elems_no_sep by blast
  have p2: "\<forall>c\<in>set rest. c \<noteq> []"
    unfolding rest_def using real_elems_nonempty by blast
  have p3: "''..'' \<notin> set rest"
    unfolding rest_def using nd by (rule real_elems_no_dotdot)
  have st: "\<forall>c\<in>set (clean_stack cd). c \<noteq> []" using clean_stack_nonempty by blast
  have stack: "clean_stack (cd @ CHR ''/'' # s) = rev rest @ clean_stack cd"
    using clean_stack_append[OF cd, of s] foldl_clean_push_nodd[OF nd]
    by (simp add: rest_def)
  have "archivePath fs p = Clean (cd @ CHR ''/'' # s)"
    using cd by (simp add: archivePath_def filepath_Join_def s_def cd_def)
  also have "\<dots> = (if render (is_rooted cd) (rev rest @ clean_stack cd) = [] then ''.''
                   else render (is_rooted cd) (rev rest @ clean_stack cd))"
    using cd by (simp add: Clean_def stack is_rooted_append Let_def)
  finally have q: "archivePath fs p =
     (if render (is_rooted cd) (rev rest @ clean_stack cd) = [] then ''.''
      else render (is_rooted cd) (rev rest @ clean_stack cd))" .
  have root: "Clean cd =
     (if render (is_rooted cd) (clean_stack cd) = [] then ''.''
      else render (is_rooted cd) (clean_stack cd))"
    using cd by (simp add: Clean_def Let_def)
  have "within_root (if render (is_rooted cd) (clean_stack cd) = [] then ''.''
                      else render (is_rooted cd) (clean_stack cd))
          (if render (is_rooted cd) (rev rest @ clean_stack cd) = [] then ''.''
           else render (is_rooted cd) (rev rest @ clean_stack cd))"
    using p1 p2 p3 st by (rule render_under)
  then show ?thesis using q root by (simp add: cd_def)
qed

section \<open>The last byte of the paths of the storage\<close>

lemma Split_last:
  "p \<noteq> [] \<Longrightarrow> last p \<noteq> sep \<Longrightarrow>
   last (Split p sep) \<noteq> [] \<and> last (last (Split p sep)) = last p"
proof (induction p)
  case Nil
  then show ?case by simp
next
  case (Cons x xs)
  show ?case
  proof (cases "xs = []")
    case True
    with Cons.prems show ?thesis by simp
  next
    case False
    then have ih: "last (Split xs sep) \<noteq> [] \<and> last (last (Split xs sep)) = last xs"
      using Cons by simp
    obtain y ys where sp: "Split xs sep = y # ys" by (cases "Split xs sep") auto
    show ?thesis
    proof (cases "x = sep")
      case True
      then show ?thesis using ih False by simp
    next
      case nsep: False
      show ?thesis
      proof (cases "ys = []")
        case True
        then show ?thesis using ih sp nsep False by simp
      next
        case ysne: False
        then show ?thesis using ih sp nsep False by simp
      qed
    qed
  qed
qed

lemma Join_last:
  "es \<noteq> [] \<Longrightarrow> last es \<noteq> [] \<Longrightarrow> Join es sep \<noteq> [] \<and> last (Join es sep) = last (last es)"
proof (induction es)
  case Nil
  then show ?case by simp
next
  case (Cons e es)
  show ?case
  proof (cases "es = []")
    case True
    with Cons.prems show ?thesis by simp
  next
    case False
    then have "Join es sep \<noteq> [] \<and> last (Join es sep) = last (last es)"
      using Cons by simp
    moreover have "Join (e # es) sep = e @ sep @ Join es sep"
      using False by (cases es) simp_all
    ultimately show ?thesis using False by simp
  qed
qed

lemma clean_stack_last:
  assumes "p \<noteq> []" "last p \<noteq> CHR ''/''" "last p \<noteq> CHR ''.''"
  shows "\<exists>st. clean_stack p = last (Split p CHR ''/'') # st"
proof -
  define comps where "comps = Split p CHR ''/''"
  define lc where "lc = last comps"
  have lc: "lc \<noteq> []" "last lc = last p"
    using Split_last[OF assms(1,2)] by (simp_all add: lc_def comps_def)
  have "lc \<noteq> ''.''" "lc \<noteq> ''..''" using lc assms(3) by auto
  then have push: "clean_push r st lc = lc # st" for r st
    using lc(1) by (simp add: clean_push_def)
  have "comps = butlast comps @ [lc]" by (simp add: lc_def comps_def)
  then have "foldl (clean_push (is_rooted p)) [] comps
               = clean_push (is_rooted p) (foldl (clean_push (is_rooted p)) [] (butlast comps)) lc"
    by (metis foldl_Cons foldl_Nil foldl_append)
  then have "clean_stack p = lc # foldl (clean_push (is_rooted p)) [] (butlast comps)"
    unfolding clean_stack_def comps_def[symmetric] by (simp only: push)
  then show ?thesis unfolding lc_def comps_def by (rule exI)
qed

lemma Clean_last:
  assumes "p \<noteq> []" "last p \<noteq> CHR ''/''" "last p \<noteq> CHR ''.''"
  shows "Clean p \<noteq> [] \<and> last (Clean p) = last p"
proof -
  obtain st where st: "clean_stack p = last (Split p CHR ''/'') # st"
    using clean_stack_last[OF assms] by blast
  define lc where "lc = last (Split p CHR ''/'')"
  have lc: "lc \<noteq> []" "last lc = last p"
    using Split_last[OF assms(1,2)] by (simp_all add: lc_def)
  have j: "Join (rev st @ [lc]) ''/'' \<noteq> [] \<and> last (Join (rev st @ [lc]) ''/'') = last lc"
    using Join_last[of "rev st @ [lc]" "''/''"] lc(1) by simp
  have "render (is_rooted p) (lc # st) \<noteq> [] \<and> last (render (is_rooted p) (lc # st)) = last p"
    using j lc(2) by (simp add: render_def)
  then show ?thesis using assms(1) st by (simp add: Clean_def Let_def lc_def)
qed

lemma filepath_Join_last:
  assumes "es \<noteq> []" "last es \<noteq> []" "last (last es) \<noteq> CHR ''/''" "last (last es) \<noteq> CHR ''.''"
  shows "filepath_Join es \<noteq> [] \<and> last (filepath_Join es) = last (last es)"
proof -
  define ds where "ds = dropWhile (\<lambda>e. e = []) es"
  have "\<exists>x\<in>set es. \<not> x = []" using assms(1,2) last_in_set by blast
  then have ne: "ds \<noteq> []" by (simp add: ds_def)
  have "es = takeWhile (\<lambda>e. e = []) es @ ds" by (simp add: ds_def)
  then have "last es = last ds" using ne by (metis last_appendR)
  then have j: "Join ds ''/'' \<noteq> [] \<and> last (Join ds ''/'') = last (last es)"
    using Join_last[OF ne] assms(2) by simp
  have "filepath_Join es = Clean (Join ds ''/'')"
    using ne by (cases ds) (simp_all add: filepath_Join_def ds_def)
  then show ?thesis using Clean_last[of "Join ds ''/''"] j assms(3,4) by simp
qed


lemma versionPath_last: "versionPath fs h ns t v \<noteq> [] \<and> last (versionPath fs h ns t v) = CHR ''n''"
  using filepath_Join_last[of "[cacheDir fs, h, ns, t, v @ ''.json'']"]
  by (simp add: versionPath_def)





section \<open>What the rewrite step reads and writes\<close>

lemma upstream_suffix_last: "HasSuffix q ''.upstream'' \<Longrightarrow> q \<noteq> [] \<and> last q = CHR ''m''"
proof -
  assume "HasSuffix q ''.upstream''"
  then have "suffix ''.upstream'' q" by (simp add: HasSuffix_def suffix_to_prefix)
  then obtain r where "q = r @ ''.upstream''" by (auto simp: suffix_def)
  then show ?thesis by simp
qed

lemma upstreamURLPath_suffix: "HasSuffix (upstreamURLPath fs p) ''.upstream''"
  by (simp add: upstreamURLPath_def HasSuffix_def)

lemma agree_refl: "agree_off_upstream d d"
  by (simp add: agree_off_upstream_def)

lemma agree_sym: "agree_off_upstream d d' \<Longrightarrow> agree_off_upstream d' d"
  by (simp add: agree_off_upstream_def)

lemma agree_trans:
  "agree_off_upstream d d' \<Longrightarrow> agree_off_upstream d' d'' \<Longrightarrow> agree_off_upstream d d''"
  by (simp add: agree_off_upstream_def)

lemma agree_at: "agree_off_upstream d d' \<Longrightarrow> q \<noteq> [] \<Longrightarrow> last q \<noteq> CHR ''m'' \<Longrightarrow> d q = d' q"
  using upstream_suffix_last[of q] by (auto simp: agree_off_upstream_def)

lemma readFile_cong: "d q = d' q \<Longrightarrow> readFile w fs d q = readFile w fs d' q"
  by (simp add: readFile_def split: option.splits)

lemma GetH1Hash_agree:
  "agree_off_upstream d d' \<Longrightarrow> GetH1Hash w fs d p = GetH1Hash w fs d' p"
proof -
  assume a: "agree_off_upstream d d'"
  have "d (h1HashPath fs p) = d' (h1HashPath fs p)"
    using a by (rule agree_at) (simp_all add: h1HashPath_def)
  then show ?thesis by (simp add: GetH1Hash_def readFile_cong[of d _ d'])
qed

lemma PutUpstreamURL_agree: "agree_off_upstream d (snd (PutUpstreamURL w fs d p u))"
  using upstreamURLPath_suffix[of fs p]
  by (auto simp: PutUpstreamURL_def writeFileAtomic_def agree_off_upstream_def)

lemma PutUpstreamURL_agree2:
  "agree_off_upstream d d' \<Longrightarrow>
   agree_off_upstream (snd (PutUpstreamURL w fs d p u)) (snd (PutUpstreamURL w fs d' p u))"
  by (auto simp: PutUpstreamURL_def writeFileAtomic_def agree_off_upstream_def)

lemma rewrite_entry_agree:
  assumes "agree_off_upstream d d'"
  shows "fst (rewrite_entry w m h ns t d e) = fst (rewrite_entry w m h ns t d' e) \<and>
         agree_off_upstream (snd (rewrite_entry w m h ns t d e)) (snd (rewrite_entry w m h ns t d' e))"
proof (cases "URL (snd e) = []")
  case True
  then show ?thesis using assms by (simp add: rewrite_entry_def Let_def)
next
  case False
  define ap where "ap = localPath h ns t (extractFilename w (URL (snd e)))"
  define d1 where "d1 = snd (PutUpstreamURL w (storage m) d ap (URL (snd e)))"
  define d1' where "d1' = snd (PutUpstreamURL w (storage m) d' ap (URL (snd e)))"
  have a1: "agree_off_upstream d1 d1'"
    unfolding d1_def d1'_def using assms by (rule PutUpstreamURL_agree2)
  then have h: "GetH1Hash w (storage m) d1 ap = GetH1Hash w (storage m) d1' ap"
    by (rule GetH1Hash_agree)
  show ?thesis using False a1 h
    by (simp add: rewrite_entry_def Let_def ap_def[symmetric] d1_def[symmetric] d1'_def[symmetric])
qed

lemma rewrite_entry_frame: "agree_off_upstream d (snd (rewrite_entry w m h ns t d e))"
  using PutUpstreamURL_agree by (simp add: rewrite_entry_def Let_def agree_refl)

lemma rewrite_entries_agree:
  "agree_off_upstream d d' \<Longrightarrow>
   fst (rewrite_entries w m h ns t d es) = fst (rewrite_entries w m h ns t d' es) \<and>
   agree_off_upstream (snd (rewrite_entries w m h ns t d es)) (snd (rewrite_entries w m h ns t d' es))"
proof (induction es arbitrary: d d')
  case Nil
  then show ?case by simp
next
  case (Cons e es)
  note st = rewrite_entry_agree[OF Cons.prems, of w m h ns t e]
  note ih = Cons.IH[OF st[THEN conjunct2]]
  show ?case using st ih by (simp add: split_def Let_def)
qed

lemma rewrite_entries_frame: "agree_off_upstream d (snd (rewrite_entries w m h ns t d es))"
proof (induction es arbitrary: d)
  case Nil
  then show ?case by (simp add: agree_refl)
next
  case (Cons e es)
  have "agree_off_upstream d (snd (rewrite_entry w m h ns t d e))" by (rule rewrite_entry_frame)
  moreover have "agree_off_upstream (snd (rewrite_entry w m h ns t d e))
     (snd (rewrite_entries w m h ns t (snd (rewrite_entry w m h ns t d e)) es))"
    by (rule Cons.IH)
  ultimately show ?case by (simp add: split_def Let_def agree_trans)
qed

lemma rewrite_agree:
  assumes "agree_off_upstream d d'"
  shows "fst (rewriteArchiveURLsWithH1 w m d h ns t data)
           = fst (rewriteArchiveURLsWithH1 w m d' h ns t data)"
  using rewrite_entries_agree[OF assms, of w m h ns t]
  by (simp add: rewriteArchiveURLsWithH1_def split_def Let_def split: option.splits)

lemma rewrite_frame: "agree_off_upstream d (snd (rewriteArchiveURLsWithH1 w m d h ns t data))"
  using rewrite_entries_frame[of d w m h ns t]
  by (simp add: rewriteArchiveURLsWithH1_def split_def Let_def agree_refl split: option.splits)

section \<open>Archives and their upstream-URL sidecars\<close>
































section \<open>Claims\<close>

text \<open>
  Claim C9. For every archive path \<open>p\<close>, also with \<open>..\<close> elements or leading
  separators, the path that \<open>archivePath\<close> builds for a storage with a non-empty
  cache directory (the configuration refuses an empty one) lies under the
  cleaned cache directory, and so \<open>FilesystemStorage.GetArchive\<close> reads nothing
  outside it: two disks that agree on every path under the cache directory
  give the same result.
\<close>

theorem archive_read_within_cache_root:
  assumes "cacheDir fs \<noteq> []"
  shows "within_root (Clean (cacheDir fs)) (archivePath fs p) \<and>
         (\<forall>disk disk'. (\<forall>q. within_root (Clean (cacheDir fs)) q \<longrightarrow> disk q = disk' q) \<longrightarrow>
            storage_GetArchive fs disk p = storage_GetArchive fs disk' p)"
proof -
  have w: "within_root (Clean (cacheDir fs)) (archivePath fs p)"
    using assms by (rule archivePath_within_root)
  then show ?thesis by (simp add: storage_GetArchive_def)
qed

theorem archive_read_within_cache_root_witness:
  "cacheDir \<lparr>cacheDir = ''/cache''\<rparr> \<noteq> [] \<and>
   within_root ''/cache'' (archivePath \<lparr>cacheDir = ''/cache''\<rparr> ''../../etc/passwd'') \<and>
   storage_GetArchive \<lparr>cacheDir = ''/cache''\<rparr> [''/etc/passwd'' \<mapsto> ''secret''] ''../../etc/passwd''
     = storage_GetArchive \<lparr>cacheDir = ''/cache''\<rparr> Map.empty ''../../etc/passwd''"
proof -
  have c: "Clean ''/cache'' = ''/cache''"
    by (simp add: Clean_def clean_stack_def clean_push_def render_def is_rooted_def HasPrefix_def)
  have n: "\<not> within_root ''/cache'' ''/etc/passwd''"
    by (simp add: within_root_def HasPrefix_def no_dotdot_elem_def)
  have h: "cacheDir \<lparr>cacheDir = ''/cache''\<rparr> \<noteq> []" by simp
  have agree: "\<forall>q. within_root (Clean (cacheDir \<lparr>cacheDir = ''/cache''\<rparr>)) q \<longrightarrow>
            [''/etc/passwd'' \<mapsto> ''secret''] q = Map.empty q"
    using n c by auto
  have th: "within_root (Clean (cacheDir \<lparr>cacheDir = ''/cache''\<rparr>))
              (archivePath \<lparr>cacheDir = ''/cache''\<rparr> ''../../etc/passwd'') \<and>
         (\<forall>disk disk'. (\<forall>q. within_root (Clean (cacheDir \<lparr>cacheDir = ''/cache''\<rparr>)) q
                            \<longrightarrow> disk q = disk' q) \<longrightarrow>
            storage_GetArchive \<lparr>cacheDir = ''/cache''\<rparr> disk ''../../etc/passwd''
              = storage_GetArchive \<lparr>cacheDir = ''/cache''\<rparr> disk' ''../../etc/passwd'')"
    using h by (rule archive_read_within_cache_root)
  from th have 1: "within_root ''/cache'' (archivePath \<lparr>cacheDir = ''/cache''\<rparr> ''../../etc/passwd'')"
    using c by simp
  have 2: "storage_GetArchive \<lparr>cacheDir = ''/cache''\<rparr> [''/etc/passwd'' \<mapsto> ''secret''] ''../../etc/passwd''
       = storage_GetArchive \<lparr>cacheDir = ''/cache''\<rparr> Map.empty ''../../etc/passwd''"
    by (rule th[THEN conjunct2, rule_format, OF agree[rule_format]])
  from h 1 2 show ?thesis by (intro conjI)
qed

text \<open>
  Claim C1 (what the code does). When the archive is not in the cache and
  \<open>GetUpstreamURL\<close> fails or gives the empty string, \<open>Mirror.GetArchive\<close>
  returns an error of its own, not \<open>io.EOF\<close>; the handler answers 404 only to
  \<open>io.EOF\<close>, so the response is 500. Nothing is written.
\<close>

theorem orphan_archive_request:
  assumes "storage_GetArchive (storage m) disk
             (hostname @ ''/'' @ namespace @ ''/'' @ providerType @ ''/'' @ filename) = Inl e"
      and "\<forall>u. GetUpstreamURL w (storage m) disk
             (hostname @ ''/'' @ namespace @ ''/'' @ providerType @ ''/'' @ filename) = Inr u
             \<longrightarrow> u = []"
  shows "ArchiveHandlerForProvider w m disk hostname namespace providerType filename
           = (InternalServerError, disk) \<and> statusCode InternalServerError = 500"
  using assms
  by (simp add: ArchiveHandlerForProvider_def GetArchive_def notAvailable_def
      InternalServerError_def Let_def split: sum.splits)

theorem orphan_archive_request_witness:
  "ArchiveHandlerForProvider quiet_world mirror0 Map.empty
     ''registry.example'' ''hashicorp'' ''aws'' ''x.zip'' = (InternalServerError, Map.empty) \<and>
   statusCode InternalServerError = 500"
proof -
  have a: "storage_GetArchive (storage mirror0) Map.empty
             (''registry.example'' @ ''/'' @ ''hashicorp'' @ ''/'' @ ''aws'' @ ''/'' @ ''x.zip'') = Inl EOF"
    by (simp add: storage_GetArchive_def)
  have b: "\<forall>u. GetUpstreamURL quiet_world (storage mirror0) Map.empty
             (''registry.example'' @ ''/'' @ ''hashicorp'' @ ''/'' @ ''aws'' @ ''/'' @ ''x.zip'') = Inr u
             \<longrightarrow> u = []"
    by (simp add: GetUpstreamURL_def readFile_def quiet_world_def mirror0_def path_eval)
  show ?thesis by (rule orphan_archive_request[OF a b])
qed

text \<open>
  Claim C10. When the cached manifest of a key is a blob that
  \<open>json.Unmarshal\<close> refuses (as it refuses everything that is not valid JSON),
  \<open>GetVersion\<close> returns the parse error and leaves the disk as it is, so every
  call for the key fails alike, and the handler answers 500; \<open>GetIndex\<close>
  returns whatever index blob is cached, without parsing it.
\<close>

theorem malformed_cached_manifest:
  assumes "storage_GetVersion w (storage m) disk hostname namespace providerType version = Inr cached"
      and "unmarshalVersion w cached = None"
  shows "GetVersion w m disk hostname namespace providerType version
           = (Inl (Failure ''failed to parse version response''), disk) \<and>
         VersionHandlerWithParams w m disk hostname namespace providerType version
           = (InternalServerError, disk) \<and>
         statusCode InternalServerError = 500 \<and>
         (\<forall>data. storage_GetIndex w (storage m) disk hostname namespace providerType = Inr data
            \<longrightarrow> GetIndex w m disk hostname namespace providerType = (Inr data, disk))"
  using assms
  by (simp add: GetVersion_def rewriteArchiveURLsWithH1_def VersionHandlerWithParams_def
      InternalServerError_def GetIndex_def)

theorem malformed_cached_manifest_witness:
  "GetVersion quiet_world mirror0 garbage_disk ''registry.example'' ''hashicorp'' ''aws'' ''5.0.0''
     = (Inl (Failure ''failed to parse version response''), garbage_disk) \<and>
   VersionHandlerWithParams quiet_world mirror0 garbage_disk
       ''registry.example'' ''hashicorp'' ''aws'' ''5.0.0''
     = (InternalServerError, garbage_disk) \<and>
   GetIndex quiet_world mirror0 garbage_disk ''registry.example'' ''hashicorp'' ''aws''
     = (Inr ''not json either'', garbage_disk)"
proof -
  have a: "storage_GetVersion quiet_world (storage mirror0) garbage_disk
             ''registry.example'' ''hashicorp'' ''aws'' ''5.0.0'' = Inr ''not json''"
    by (simp add: storage_GetVersion_def readFile_def quiet_world_def mirror0_def
        garbage_disk_def path_eval)
  have b: "unmarshalVersion quiet_world ''not json'' = None"
    by (simp add: quiet_world_def)
  have c: "storage_GetIndex quiet_world (storage mirror0) garbage_disk
             ''registry.example'' ''hashicorp'' ''aws'' = Inr ''not json either''"
    by (simp add: storage_GetIndex_def readFile_def quiet_world_def mirror0_def
        garbage_disk_def path_eval)
  note th = malformed_cached_manifest[OF a b]
  from th have 1: "GetVersion quiet_world mirror0 garbage_disk ''registry.example'' ''hashicorp'' ''aws'' ''5.0.0''
     = (Inl (Failure ''failed to parse version response''), garbage_disk)"
    by (rule conjunct1)
  from th have 2: "VersionHandlerWithParams quiet_world mirror0 garbage_disk
       ''registry.example'' ''hashicorp'' ''aws'' ''5.0.0'' = (InternalServerError, garbage_disk)"
    by (rule conjunct2[THEN conjunct1])
  have 3: "GetIndex quiet_world mirror0 garbage_disk ''registry.example'' ''hashicorp'' ''aws''
     = (Inr ''not json either'', garbage_disk)"
    by (rule th[THEN conjunct2, THEN conjunct2, THEN conjunct2, rule_format, OF c])
  from 1 2 3 show ?thesis by (intro conjI)
qed

lemma fetch_404:
  "httpDo w u 0 = Response 404 (Some b) \<Longrightarrow> 0 \<le> uc_maxRetries uc \<Longrightarrow> fetch w uc u = Inr (b, 404)"
  by (simp add: fetch_def fetch_from.simps)

lemma fetch_200:
  "httpDo w u 0 = Response 200 (Some b) \<Longrightarrow> 0 \<le> uc_maxRetries uc \<Longrightarrow> fetch w uc u = Inr (b, 200)"
  by (simp add: fetch_def fetch_from.simps)



text \<open>
  Claim C2 (against). With the base URL \<open>https://upstream.example\<close>, which is
  not the registry API, a request for the hostname \<open>registry.terraform.io\<close>
  goes to the registry API path of the upstream, not to the path of the mirror
  protocol; the upstream, which serves the index at that path, is never asked
  for it and the fetch ends in not-found.
\<close>

theorem dialect_depends_on_hostname_counterexample:
  "uc_baseURL (upstream mirror0) \<noteq> ''https://registry.terraform.io'' \<and>
   indexURL (upstream mirror0) ''registry.terraform.io'' ''hashicorp'' ''aws''
     = ''https://upstream.example/v1/providers/hashicorp/aws/versions'' \<and>
   buildURL (upstream mirror0) ''registry.terraform.io/hashicorp/aws/index.json''
     = ''https://upstream.example/registry.terraform.io/hashicorp/aws/index.json'' \<and>
   FetchIndex static_upstream (upstream mirror0) ''registry.terraform.io'' ''hashicorp'' ''aws''
     = Inl ErrNotFound"
proof -
  have u: "indexURL (upstream mirror0) ''registry.terraform.io'' ''hashicorp'' ''aws''
     = ''https://upstream.example/v1/providers/hashicorp/aws/versions''"
    by (simp add: indexURL_def useRegistryAPI_def mirror0_def)
  have h: "httpDo static_upstream ''https://upstream.example/v1/providers/hashicorp/aws/versions'' 0
             = Response 404 (Some [])"
    by (simp add: static_upstream_def quiet_world_def)
  have f: "fetch static_upstream (upstream mirror0)
             ''https://upstream.example/v1/providers/hashicorp/aws/versions'' = Inr ([], 404)"
    using h by (rule fetch_404) (simp add: mirror0_def)
  have "FetchIndex static_upstream (upstream mirror0) ''registry.terraform.io'' ''hashicorp'' ''aws''
     = Inl ErrNotFound"
    by (simp add: FetchIndex_def u f)
  then show ?thesis using u by (simp add: mirror0_def buildURL_def)
qed

text \<open>
  Claim C2 (amended). The registry API is used exactly when the requested
  hostname is \<open>registry.terraform.io\<close> or the base URL is
  \<open>https://registry.terraform.io\<close>: then \<open>FetchIndex\<close> requests
  \<open>/v1/providers/<namespace>/<type>/versions\<close> under the base URL and converts
  the registry's answer, and \<open>FetchVersion\<close> probes the download endpoints.
  In every other case, so for a base URL that is not the registry API and
  every hostname other than \<open>registry.terraform.io\<close>, \<open>FetchIndex\<close> and
  \<open>FetchVersion\<close> request the mirror-protocol paths under the base URL and
  parse the body in the mirror-protocol shape.
\<close>

theorem dialect_choice:
  "(useRegistryAPI uc hostname \<longleftrightarrow>
      hostname = ''registry.terraform.io'' \<or> uc_baseURL uc = ''https://registry.terraform.io'') \<and>
   (hostname = ''registry.terraform.io'' \<or> uc_baseURL uc = ''https://registry.terraform.io'' \<longrightarrow>
      indexURL uc hostname namespace providerType
        = uc_baseURL uc @ ''/v1/providers/'' @ namespace @ ''/'' @ providerType @ ''/versions'' \<and>
      FetchIndex w uc hostname namespace providerType =
        (case fetch w uc (uc_baseURL uc @ ''/v1/providers/'' @ namespace @ ''/'' @ providerType
                            @ ''/versions'') of
           Inl err \<Rightarrow> Inl err
         | Inr (body, status) \<Rightarrow>
             if status = 404 then Inl ErrNotFound
             else if status \<noteq> 200 then Inl (Failure ''unexpected status code'')
             else convertRegistryAPIToIndexResponse w body) \<and>
      FetchVersion w uc hostname namespace providerType version
        = convertRegistryAPIToVersionResponse w uc namespace providerType version) \<and>
   (\<not> (hostname = ''registry.terraform.io'' \<or> uc_baseURL uc = ''https://registry.terraform.io'') \<longrightarrow>
      indexURL uc hostname namespace providerType
        = uc_baseURL uc @ ''/'' @ hostname @ ''/'' @ namespace @ ''/'' @ providerType @ ''/index.json'' \<and>
      FetchIndex w uc hostname namespace providerType =
        (case fetch w uc (uc_baseURL uc @ ''/'' @ hostname @ ''/'' @ namespace @ ''/''
                            @ providerType @ ''/index.json'') of
           Inl err \<Rightarrow> Inl err
         | Inr (body, status) \<Rightarrow>
             if status = 404 then Inl ErrNotFound
             else if status \<noteq> 200 then Inl (Failure ''unexpected status code'')
             else (case unmarshalIndex w body of
                     None \<Rightarrow> Inl (Failure ''failed to parse index response'')
                   | Some response \<Rightarrow> Inr response)) \<and>
      FetchVersion w uc hostname namespace providerType version =
        (case fetch w uc (uc_baseURL uc @ ''/'' @ hostname @ ''/'' @ namespace @ ''/''
                            @ providerType @ ''/'' @ version @ ''.json'') of
           Inl err \<Rightarrow> Inl err
         | Inr (body, status) \<Rightarrow>
             if status = 404 then Inl ErrNotFound
             else if status \<noteq> 200 then Inl (Failure ''unexpected status code'')
             else (case unmarshalVersion w body of
                     None \<Rightarrow> Inl (Failure ''failed to parse version response'')
                   | Some response \<Rightarrow> Inr response)))"
proof (cases "useRegistryAPI uc hostname")
  case True
  then show ?thesis
    by (auto simp: useRegistryAPI_def FetchIndex_def FetchVersion_def indexURL_def
        split: sum.splits prod.splits)
next
  case False
  then show ?thesis
    by (auto simp: useRegistryAPI_def FetchIndex_def FetchVersion_def indexURL_def buildURL_def
        split: sum.splits prod.splits)
qed

theorem dialect_choice_witness:
  "\<not> useRegistryAPI (upstream mirror0) ''registry.example'' \<and>
   FetchIndex static_upstream (upstream mirror0) ''registry.example'' ''hashicorp'' ''aws''
     = Inl ErrNotFound \<and>
   useRegistryAPI (upstream mirror0) ''registry.terraform.io'' \<and>
   useRegistryAPI registry_client ''registry.example'' \<and>
   indexURL registry_client ''registry.example'' ''hashicorp'' ''aws''
     = ''https://registry.terraform.io/v1/providers/hashicorp/aws/versions'' \<and>
   FetchVersion registry_upstream registry_client ''registry.example'' ''hashicorp'' ''aws'' ''5.0.0''
     = convertRegistryAPIToVersionResponse registry_upstream registry_client
         ''hashicorp'' ''aws'' ''5.0.0''"
proof -
  note th = dialect_choice
  have a: "uc_baseURL (upstream mirror0) \<noteq> ''https://registry.terraform.io''"
    by (simp add: mirror0_def)
  have b: "uc_baseURL registry_client = ''https://registry.terraform.io''"
    by (simp add: registry_client_def)
  have ne: "''registry.example'' \<noteq> ''registry.terraform.io''" by simp
  have nat: "\<not> (''registry.example'' = ''registry.terraform.io''
               \<or> uc_baseURL (upstream mirror0) = ''https://registry.terraform.io'')"
    using a ne by simp
  have reg: "''registry.example'' = ''registry.terraform.io''
               \<or> uc_baseURL registry_client = ''https://registry.terraform.io''"
    using b by simp
  have 1: "\<not> useRegistryAPI (upstream mirror0) ''registry.example''"
    using th[of "upstream mirror0" "''registry.example''", THEN conjunct1] nat by simp
  have 2: "useRegistryAPI (upstream mirror0) ''registry.terraform.io''"
    using th[of "upstream mirror0" "''registry.terraform.io''", THEN conjunct1] by simp
  have 4: "useRegistryAPI registry_client ''registry.example''"
    using th[of registry_client "''registry.example''", THEN conjunct1] reg by simp
  have h: "httpDo static_upstream (uc_baseURL (upstream mirror0) @ ''/'' @ ''registry.example''
             @ ''/'' @ ''hashicorp'' @ ''/'' @ ''aws'' @ ''/index.json'') 0
             = Response 404 (Some [])"
    by (simp add: static_upstream_def quiet_world_def mirror0_def)
  have f: "fetch static_upstream (upstream mirror0)
             (uc_baseURL (upstream mirror0) @ ''/'' @ ''registry.example'' @ ''/'' @ ''hashicorp''
                @ ''/'' @ ''aws'' @ ''/index.json'') = Inr ([], 404)"
    using h by (rule fetch_404) (simp add: mirror0_def)
  have 3: "FetchIndex static_upstream (upstream mirror0) ''registry.example'' ''hashicorp'' ''aws''
     = Inl ErrNotFound"
    using th[of "upstream mirror0" "''registry.example''" "''hashicorp''" "''aws''"
        static_upstream "''5.0.0''",
        THEN conjunct2, THEN conjunct2, rule_format, OF nat, THEN conjunct2, THEN conjunct1] f
    by simp
  note r = th[of registry_client "''registry.example''" "''hashicorp''" "''aws''"
        registry_upstream "''5.0.0''", THEN conjunct2, THEN conjunct1, rule_format, OF reg]
  have 5: "indexURL registry_client ''registry.example'' ''hashicorp'' ''aws''
     = ''https://registry.terraform.io/v1/providers/hashicorp/aws/versions''"
    using r[THEN conjunct1] b by simp
  have 6: "FetchVersion registry_upstream registry_client ''registry.example'' ''hashicorp'' ''aws'' ''5.0.0''
     = convertRegistryAPIToVersionResponse registry_upstream registry_client
         ''hashicorp'' ''aws'' ''5.0.0''"
    by (rule r[THEN conjunct2, THEN conjunct2])
  from 1 3 2 4 5 6 show ?thesis by (intro conjI)
qed

section \<open>Properties of the upstream client\<close>

lemma fetch_2xx:
  "httpDo w u 0 = Response st (Some b) \<Longrightarrow> st < 400 \<Longrightarrow> 0 \<le> uc_maxRetries uc \<Longrightarrow>
   fetch w uc u = Inr (b, st)"
  by (simp add: fetch_def fetch_from.simps)

lemma map_assign_fresh: "k \<notin> fst ` set acc \<Longrightarrow> map_assign acc k v = acc @ [(k, v)]"
  by (induction acc) auto

lemma foldl_probe_round:
  "distinct (map platformKey ps) \<Longrightarrow> \<forall>p\<in>set ps. platformKey p \<notin> fst ` set acc \<Longrightarrow>
   foldl (probe_round w uc ns t v) acc ps =
     acc @ List.map_filter (\<lambda>p. map_option (Pair (platformKey p)) (probe w uc ns t v p)) ps"
proof (induction ps arbitrary: acc)
  case Nil
  then show ?case by (simp add: List.map_filter_simps)
next
  case (Cons p ps)
  show ?case
  proof (cases "probe w uc ns t v p")
    case None
    then have "probe_round w uc ns t v acc p = acc" by (simp add: probe_round_def)
    then show ?thesis using Cons None by (simp add: List.map_filter_simps)
  next
    case (Some a)
    have fresh: "platformKey p \<notin> fst ` set acc" using Cons.prems(2) by simp
    have step: "probe_round w uc ns t v acc p = acc @ [(platformKey p, a)]"
      using Some map_assign_fresh[OF fresh] by (simp add: probe_round_def)
    have d: "distinct (map platformKey ps)" using Cons.prems(1) by simp
    have f2: "\<forall>q\<in>set ps. platformKey q \<notin> fst ` set (acc @ [(platformKey p, a)])"
    proof
      fix q assume q: "q \<in> set ps"
      have "platformKey p \<notin> platformKey ` set ps" using Cons.prems(1) by simp
      then have "platformKey q \<noteq> platformKey p" using q by (metis imageI)
      moreover have "platformKey q \<notin> fst ` set acc" using Cons.prems(2) q by simp
      ultimately show "platformKey q \<notin> fst ` set (acc @ [(platformKey p, a)])" by simp
    qed
    show ?thesis using Cons.IH[OF d f2] step Some by (simp add: List.map_filter_simps)
  qed
qed

lemma platforms_distinct: "distinct (map platformKey platforms)"
  by (simp add: platforms_def platformKey_def)

lemma probe_Some:
  "probe w uc ns t v p = Some a \<longleftrightarrow>
     (\<exists>body d s. fetch w uc (downloadURL uc ns t v p) = Inr (body, 200) \<and>
        unmarshalDownloadInfo w body = Some (d, s) \<and> a = \<lparr>URL = d, Hashes = [''zh:'' @ s]\<rparr>)"
  by (auto simp: probe_def split: sum.splits option.splits prod.splits)


text \<open>
  Claim C7 (against). A probe answered with the 2xx status 203 and a
  well-formed download document contributes no entry: \<open>fetch\<close> returns the
  body with status 203, the round ends at the test \<open>status != 200\<close>, and with
  the other probes answered 404 the operation fails.
\<close>

theorem probe_2xx_skipped_counterexample:
  "httpDo registry_203 (downloadURL registry_client ''hashicorp'' ''aws'' ''5.0.0'' (''linux'', ''amd64'')) 0
     = Response 203 (Some ''download-info:linux/amd64'') \<and>
   unmarshalDownloadInfo registry_203 ''download-info:linux/amd64''
     = Some (''https://releases.example/linux/amd64.zip'', ''sha-linux/amd64'') \<and>
   fetch registry_203 registry_client
       (downloadURL registry_client ''hashicorp'' ''aws'' ''5.0.0'' (''linux'', ''amd64''))
     = Inr (''download-info:linux/amd64'', 203) \<and>
   probe registry_203 registry_client ''hashicorp'' ''aws'' ''5.0.0'' (''linux'', ''amd64'') = None \<and>
   convertRegistryAPIToVersionResponse registry_203 registry_client ''hashicorp'' ''aws'' ''5.0.0''
     = Inl (Failure ''no platforms found for provider version'')"
proof -
  have h: "httpDo registry_203 (downloadURL registry_client ''hashicorp'' ''aws'' ''5.0.0'' (''linux'', ''amd64'')) 0
     = Response 203 (Some ''download-info:linux/amd64'')"
    by (simp add: registry_203_def quiet_world_def downloadURL_def registry_client_def
        download_prefix_def)
  have u: "unmarshalDownloadInfo registry_203 ''download-info:linux/amd64''
     = Some (''https://releases.example/linux/amd64.zip'', ''sha-linux/amd64'')"
    by (simp add: registry_203_def quiet_world_def)
  have f: "fetch registry_203 registry_client
       (downloadURL registry_client ''hashicorp'' ''aws'' ''5.0.0'' (''linux'', ''amd64''))
     = Inr (''download-info:linux/amd64'', 203)"
    using h by (rule fetch_2xx) (simp_all add: registry_client_def)
  have p: "probe registry_203 registry_client ''hashicorp'' ''aws'' ''5.0.0'' (''linux'', ''amd64'') = None"
    by (simp add: probe_def f)
  have others: "probe registry_203 registry_client ''hashicorp'' ''aws'' ''5.0.0'' q = None"
    if "q \<noteq> (''linux'', ''amd64'')" "q \<in> set platforms" for q
  proof -
    have "httpDo registry_203 (downloadURL registry_client ''hashicorp'' ''aws'' ''5.0.0'' q) 0
            = Response 404 (Some [])"
      using that
      by (auto simp: registry_203_def quiet_world_def downloadURL_def registry_client_def
          download_prefix_def platforms_def)
    then have "fetch registry_203 registry_client
                 (downloadURL registry_client ''hashicorp'' ''aws'' ''5.0.0'' q) = Inr ([], 404)"
      by (rule fetch_404) (simp add: registry_client_def)
    then show ?thesis by (simp add: probe_def)
  qed
  have all: "probe registry_203 registry_client ''hashicorp'' ''aws'' ''5.0.0'' q = None"
    if "q \<in> set platforms" for q
    using that p others by (cases "q = (''linux'', ''amd64'')") simp_all
  have "List.map_filter (\<lambda>q. map_option (Pair (platformKey q))
          (probe registry_203 registry_client ''hashicorp'' ''aws'' ''5.0.0'' q)) platforms = []"
    using all by (simp add: List.map_filter_def)
  then have "foldl (probe_round registry_203 registry_client ''hashicorp'' ''aws'' ''5.0.0'') [] platforms = []"
    using foldl_probe_round[OF platforms_distinct, of "[]"] by simp
  then have c: "convertRegistryAPIToVersionResponse registry_203 registry_client ''hashicorp'' ''aws'' ''5.0.0''
     = Inl (Failure ''no platforms found for provider version'')"
    by (simp add: convertRegistryAPIToVersionResponse_def)
  from h u f p c show ?thesis by (intro conjI)
qed

text \<open>
  Claim C7 (amended). In the registry-API dialect the manifest is built from
  the eight platforms of \<open>platforms\<close>, in that order. A probe contributes
  exactly when \<open>fetch\<close> returns status 200 and the body parses as a download
  document; its entry is keyed \<open><os>_<arch>\<close>, has the \<open>download_url\<close> as url and
  the one hash \<open>zh:<shasum>\<close>. Every other probe (a failed fetch, 404, any
  other status, a body that does not parse) is skipped without error, and the
  operation fails exactly when no probe contributes.
\<close>

theorem registry_fan_out:
  "length platforms = 8 \<and>
   convertRegistryAPIToVersionResponse w uc namespace providerType version =
     (let archives =
            List.map_filter
              (\<lambda>p. map_option (Pair (platformKey p)) (probe w uc namespace providerType version p))
              platforms
      in if archives = [] then Inl (Failure ''no platforms found for provider version'')
         else Inr \<lparr>Archives = archives\<rparr>) \<and>
   (\<forall>p a. probe w uc namespace providerType version p = Some a \<longleftrightarrow>
      (\<exists>body d s.
          fetch w uc (uc_baseURL uc @ ''/v1/providers/'' @ namespace @ ''/'' @ providerType @ ''/''
                        @ version @ ''/download/'' @ fst p @ ''/'' @ snd p) = Inr (body, 200) \<and>
          unmarshalDownloadInfo w body = Some (d, s) \<and>
          a = \<lparr>URL = d, Hashes = [''zh:'' @ s]\<rparr>))"
proof -
  have 1: "length platforms = 8" by (simp add: platforms_def)
  have "foldl (probe_round w uc namespace providerType version) [] platforms =
     List.map_filter
       (\<lambda>p. map_option (Pair (platformKey p)) (probe w uc namespace providerType version p))
       platforms"
    using foldl_probe_round[OF platforms_distinct, of "[]"] by simp
  then have 2: "convertRegistryAPIToVersionResponse w uc namespace providerType version =
     (let archives =
            List.map_filter
              (\<lambda>p. map_option (Pair (platformKey p)) (probe w uc namespace providerType version p))
              platforms
      in if archives = [] then Inl (Failure ''no platforms found for provider version'')
         else Inr \<lparr>Archives = archives\<rparr>)"
    by (simp add: convertRegistryAPIToVersionResponse_def Let_def)
  have 3: "\<forall>p a. probe w uc namespace providerType version p = Some a \<longleftrightarrow>
      (\<exists>body d s.
          fetch w uc (uc_baseURL uc @ ''/v1/providers/'' @ namespace @ ''/'' @ providerType @ ''/''
                        @ version @ ''/download/'' @ fst p @ ''/'' @ snd p) = Inr (body, 200) \<and>
          unmarshalDownloadInfo w body = Some (d, s) \<and>
          a = \<lparr>URL = d, Hashes = [''zh:'' @ s]\<rparr>)"
    using probe_Some[of w uc namespace providerType version] by (simp add: downloadURL_def)
  from 1 2 3 show ?thesis by (intro conjI)
qed


theorem registry_fan_out_witness:
  "convertRegistryAPIToVersionResponse registry_upstream registry_client ''hashicorp'' ''aws'' ''5.0.0''
     = Inr \<lparr>Archives =
         [(''linux_amd64'', \<lparr>URL = ''https://releases.example/linux/amd64.zip'',
                              Hashes = [''zh:sha-linux/amd64'']\<rparr>),
          (''linux_arm64'', \<lparr>URL = ''https://releases.example/linux/arm64.zip'',
                              Hashes = [''zh:sha-linux/arm64'']\<rparr>),
          (''darwin_amd64'', \<lparr>URL = ''https://releases.example/darwin/amd64.zip'',
                               Hashes = [''zh:sha-darwin/amd64'']\<rparr>),
          (''darwin_arm64'', \<lparr>URL = ''https://releases.example/darwin/arm64.zip'',
                               Hashes = [''zh:sha-darwin/arm64'']\<rparr>),
          (''windows_amd64'', \<lparr>URL = ''https://releases.example/windows/amd64.zip'',
                                Hashes = [''zh:sha-windows/amd64'']\<rparr>)]\<rparr>"
proof -
  have ev: "List.map_filter
       (\<lambda>p. map_option (Pair (platformKey p))
              (probe registry_upstream registry_client ''hashicorp'' ''aws'' ''5.0.0'' p))
       platforms =
         [(''linux_amd64'', \<lparr>URL = ''https://releases.example/linux/amd64.zip'',
                              Hashes = [''zh:sha-linux/amd64'']\<rparr>),
          (''linux_arm64'', \<lparr>URL = ''https://releases.example/linux/arm64.zip'',
                              Hashes = [''zh:sha-linux/arm64'']\<rparr>),
          (''darwin_amd64'', \<lparr>URL = ''https://releases.example/darwin/amd64.zip'',
                               Hashes = [''zh:sha-darwin/amd64'']\<rparr>),
          (''darwin_arm64'', \<lparr>URL = ''https://releases.example/darwin/arm64.zip'',
                               Hashes = [''zh:sha-darwin/arm64'']\<rparr>),
          (''windows_amd64'', \<lparr>URL = ''https://releases.example/windows/amd64.zip'',
                                Hashes = [''zh:sha-windows/amd64'']\<rparr>)]"
    by code_simp
  show ?thesis
    using registry_fan_out[of registry_upstream registry_client "''hashicorp''" "''aws''" "''5.0.0''",
        THEN conjunct2, THEN conjunct1]
    unfolding ev Let_def by simp
qed

lemma storage_GetVersion_agree:
  assumes "agree_off_upstream d d'"
  shows "storage_GetVersion w fs d h ns t v = storage_GetVersion w fs d' h ns t v"
proof -
  have "d (versionPath fs h ns t v) = d' (versionPath fs h ns t v)"
    using assms by (rule agree_at) (simp_all add: versionPath_last)
  then show ?thesis by (simp add: storage_GetVersion_def readFile_cong[of d _ d'])
qed

lemma storage_PutVersion_agree:
  assumes "agree_off_upstream d d'"
  shows "agree_off_upstream (snd (storage_PutVersion w fs d h ns t v data))
           (snd (storage_PutVersion w fs d' h ns t v data))"
  using assms by (auto simp: storage_PutVersion_def writeFileAtomic_def agree_off_upstream_def)

lemma storage_PutVersion_read:
  assumes "storage_GetVersion w fs d h ns t v = Inl e"
      and "storage_GetVersion w fs (snd (storage_PutVersion w fs d h ns t v data)) h ns t v = Inr c"
  shows "c = data"
  using assms
  by (auto simp: storage_GetVersion_def storage_PutVersion_def writeFileAtomic_def readFile_def
      split: option.splits if_splits)

text \<open>
  Claim C8. Calling \<open>GetVersion\<close> again for the same key, on the disk the
  first call left and in the same world (the same upstream answers), returns
  what the first call returned, byte for byte: the first call writes only the
  manifest and upstream-URL sidecars, and the rewrite step reads neither of
  the sidecars it writes.
\<close>

theorem GetVersion_twice:
  "fst (GetVersion w m (snd (GetVersion w m disk hostname namespace providerType version))
          hostname namespace providerType version)
   = fst (GetVersion w m disk hostname namespace providerType version)"
proof (cases "storage_GetVersion w (storage m) disk hostname namespace providerType version")
  case (Inr cached)
  define disk1 where
    "disk1 = snd (rewriteArchiveURLsWithH1 w m disk hostname namespace providerType cached)"
  have g1: "GetVersion w m disk hostname namespace providerType version
              = rewriteArchiveURLsWithH1 w m disk hostname namespace providerType cached"
    using Inr by (simp add: GetVersion_def)
  have a: "agree_off_upstream disk disk1" unfolding disk1_def by (rule rewrite_frame)
  have "storage_GetVersion w (storage m) disk1 hostname namespace providerType version = Inr cached"
    using storage_GetVersion_agree[OF a] Inr by simp
  then have g2: "GetVersion w m disk1 hostname namespace providerType version
              = rewriteArchiveURLsWithH1 w m disk1 hostname namespace providerType cached"
    by (simp add: GetVersion_def)
  show ?thesis
    using rewrite_agree[OF a, of w m hostname namespace providerType cached]
    by (simp add: g1 g2 disk1_def[symmetric])
next
  case (Inl e)
  show ?thesis
  proof (cases "FetchVersion w (upstream m) hostname namespace providerType version")
    case fe: (Inl err)
    then show ?thesis using Inl by (simp add: GetVersion_def)
  next
    case fr: (Inr response)
    show ?thesis
    proof (cases "marshalVersion w response")
      case None
      then show ?thesis using Inl fr by (simp add: GetVersion_def)
    next
      case (Some data)
      define dP where
        "dP = snd (storage_PutVersion w (storage m) disk hostname namespace providerType version data)"
      define disk1 where
        "disk1 = snd (rewriteArchiveURLsWithH1 w m dP hostname namespace providerType data)"
      have g1: "GetVersion w m disk hostname namespace providerType version
                  = rewriteArchiveURLsWithH1 w m dP hostname namespace providerType data"
        using Inl fr Some by (simp add: GetVersion_def dP_def)
      have a: "agree_off_upstream dP disk1" unfolding disk1_def by (rule rewrite_frame)
      have rd: "storage_GetVersion w (storage m) disk1 hostname namespace providerType version
                  = storage_GetVersion w (storage m) dP hostname namespace providerType version"
        using storage_GetVersion_agree[OF a] by simp
      have "fst (GetVersion w m disk1 hostname namespace providerType version)
              = fst (rewriteArchiveURLsWithH1 w m dP hostname namespace providerType data)"
      proof (cases "storage_GetVersion w (storage m) dP hostname namespace providerType version")
        case hit: (Inr c)
        have "c = data" using Inl hit unfolding dP_def by (rule storage_PutVersion_read)
        then have "GetVersion w m disk1 hostname namespace providerType version
                = rewriteArchiveURLsWithH1 w m disk1 hostname namespace providerType data"
          using rd hit by (simp add: GetVersion_def)
        then show ?thesis
          using rewrite_agree[OF a, of w m hostname namespace providerType data] by simp
      next
        case miss: (Inl e')
        define dP' where
          "dP' = snd (storage_PutVersion w (storage m) disk1 hostname namespace providerType version data)"
        have g2: "GetVersion w m disk1 hostname namespace providerType version
                = rewriteArchiveURLsWithH1 w m dP' hostname namespace providerType data"
          using rd miss fr Some by (simp add: GetVersion_def dP'_def)
        have "agree_off_upstream
                (snd (storage_PutVersion w (storage m) dP hostname namespace providerType version data))
                dP'"
          unfolding dP'_def using a by (rule storage_PutVersion_agree)
        moreover have
          "snd (storage_PutVersion w (storage m) dP hostname namespace providerType version data) = dP"
          by (auto simp: dP_def storage_PutVersion_def writeFileAtomic_def)
        ultimately have "agree_off_upstream dP dP'" by simp
        then show ?thesis
          using rewrite_agree[of dP dP' w m hostname namespace providerType data] g2 by simp
      qed
      then show ?thesis by (simp add: g1 disk1_def[symmetric])
    qed
  qed
qed

lemma rewrite_entries_map:
  "fst (rewrite_entries w m h ns t d es) = map (\<lambda>e. fst (rewrite_entry w m h ns t d e)) es"
proof (induction es)
  case Nil
  then show ?case by simp
next
  case (Cons e es)
  have a: "agree_off_upstream d (snd (rewrite_entry w m h ns t d e))" by (rule rewrite_entry_frame)
  have "fst (rewrite_entries w m h ns t (snd (rewrite_entry w m h ns t d e)) es)
          = fst (rewrite_entries w m h ns t d es)"
    using rewrite_entries_agree[OF a, of w m h ns t es] by simp
  then show ?case using Cons.IH by (simp add: split_def Let_def)
qed

lemma TrimSuffix_slash_prefix: "HasPrefix (TrimSuffix b ''/'' @ ''/'' @ p) b"
proof (cases "HasSuffix b ''/''")
  case True
  then have "suffix ''/'' b" by (simp add: HasSuffix_def suffix_to_prefix)
  then obtain c where "b = c @ ''/''" by (auto simp: suffix_def)
  then show ?thesis using True by (simp add: TrimSuffix_def HasPrefix_def)
next
  case False
  then show ?thesis by (simp add: TrimSuffix_def HasPrefix_def)
qed

lemma rewrite_result:
  assumes "fst (rewriteArchiveURLsWithH1 w m d h ns t data) = Inr out"
  shows "\<exists>r. unmarshalVersion w data = Some r \<and>
             marshalVersion w (r\<lparr>Archives := map (\<lambda>e. fst (rewrite_entry w m h ns t d e)) (Archives r)\<rparr>)
               = Some out"
  using assms rewrite_entries_map[of w m h ns t d]
  by (auto simp: rewriteArchiveURLsWithH1_def split_def Let_def split: option.splits)

lemma rewrite_entry_url_exact:
  "fst (fst (rewrite_entry w m h ns t d e)) = fst e \<and>
   (if URL (snd e) = [] then snd (fst (rewrite_entry w m h ns t d e)) = snd e
    else URL (snd (fst (rewrite_entry w m h ns t d e)))
           = TrimSuffix (baseURL m) ''/'' @ ''/'' @ localPath h ns t (extractFilename w (URL (snd e))) \<and>
         HasPrefix (URL (snd (fst (rewrite_entry w m h ns t d e)))) (baseURL m))"
  using TrimSuffix_slash_prefix[of "baseURL m"]
  by (simp add: rewrite_entry_def Let_def split: sum.splits)

lemma list_all2_map_self:
  "(\<And>x. P x (f x)) \<Longrightarrow> list_all2 P xs (map f xs)"
  by (induction xs) auto

lemma GetVersion_source:
  assumes "fst (GetVersion w m disk h ns t v) = Inr out"
  shows "\<exists>d data.
           (case storage_GetVersion w (storage m) disk h ns t v of
              Inr cachedData \<Rightarrow> data = cachedData
            | Inl err \<Rightarrow>
                (\<exists>response. FetchVersion w (upstream m) h ns t v = Inr response \<and>
                             marshalVersion w response = Some data)) \<and>
           fst (rewriteArchiveURLsWithH1 w m d h ns t data) = Inr out"
  using assms by (auto simp: GetVersion_def split: sum.splits option.splits)

text \<open>
  Claim C3 (against). A manifest entry whose url is the empty string is left
  as it is: the bytes that \<open>GetVersion\<close> returns hold the entry with the empty
  url, which does not start with the base URL of the mirror.
\<close>

theorem empty_url_not_rewritten_counterexample:
  "fst (GetVersion empty_url_upstream mirror0 Map.empty
          ''registry.example'' ''hashicorp'' ''aws'' ''5.0.0'') = Inr doc_empty_url \<and>
   unmarshalVersion empty_url_upstream doc_empty_url
     = Some \<lparr>Archives = [(''linux_amd64'', \<lparr>URL = [], Hashes = []\<rparr>)]\<rparr> \<and>
   \<not> HasPrefix [] (baseURL mirror0)"
  by code_simp

text \<open>
  Claim C3 (amended). The bytes that \<open>GetVersion\<close> returns are the
  serialization of a manifest that has the keys, in the same order, of the
  manifest that \<open>GetVersion\<close> hands to the rewrite step (the cached blob, or
  the serialization of what the upstream answered). Every entry whose url is
  non-empty there has in the result the url of the archive in the mirror,
  which starts with the base URL of the mirror; every entry whose url is
  empty there is unchanged in the result.
\<close>

theorem rewritten_urls_start_with_base:
  assumes "fst (GetVersion w m disk hostname namespace providerType version) = Inr out"
  shows "\<exists>data r r'.
           (case storage_GetVersion w (storage m) disk hostname namespace providerType version of
              Inr cachedData \<Rightarrow> data = cachedData
            | Inl err \<Rightarrow>
                (\<exists>response.
                   FetchVersion w (upstream m) hostname namespace providerType version = Inr response \<and>
                   marshalVersion w response = Some data)) \<and>
           unmarshalVersion w data = Some r \<and> marshalVersion w r' = Some out \<and>
           list_all2 (\<lambda>e e'. fst e' = fst e \<and>
                        (if URL (snd e) = [] then snd e' = snd e
                         else URL (snd e')
                                = TrimSuffix (baseURL m) ''/'' @ ''/''
                                    @ localPath hostname namespace providerType
                                        (extractFilename w (URL (snd e))) \<and>
                              HasPrefix (URL (snd e')) (baseURL m)))
             (Archives r) (Archives r')"
proof -
  obtain d data where src:
    "case storage_GetVersion w (storage m) disk hostname namespace providerType version of
       Inr cachedData \<Rightarrow> data = cachedData
     | Inl err \<Rightarrow>
         (\<exists>response.
            FetchVersion w (upstream m) hostname namespace providerType version = Inr response \<and>
            marshalVersion w response = Some data)"
    and rw: "fst (rewriteArchiveURLsWithH1 w m d hostname namespace providerType data) = Inr out"
    using GetVersion_source[OF assms] by blast
  from rw obtain r where r: "unmarshalVersion w data = Some r"
    "marshalVersion w (r\<lparr>Archives := map (\<lambda>e. fst (rewrite_entry w m hostname namespace providerType d e)) (Archives r)\<rparr>)
               = Some out"
    using rewrite_result by blast
  define r' where "r' = r\<lparr>Archives := map (\<lambda>e. fst (rewrite_entry w m hostname namespace providerType d e)) (Archives r)\<rparr>"
  have mr: "marshalVersion w r' = Some out" using r(2) by (simp add: r'_def)
  have ar: "Archives r' = map (\<lambda>e. fst (rewrite_entry w m hostname namespace providerType d e)) (Archives r)"
    by (simp add: r'_def)
  have la: "list_all2 (\<lambda>e e'. fst e' = fst e \<and>
                        (if URL (snd e) = [] then snd e' = snd e
                         else URL (snd e')
                                = TrimSuffix (baseURL m) ''/'' @ ''/''
                                    @ localPath hostname namespace providerType
                                        (extractFilename w (URL (snd e))) \<and>
                              HasPrefix (URL (snd e')) (baseURL m)))
             (Archives r) (Archives r')"
    unfolding ar by (rule list_all2_map_self) (rule rewrite_entry_url_exact)
  from src r(1) mr la show ?thesis by (intro exI[of _ data] exI[of _ r] exI[of _ r'] conjI)
qed

theorem rewritten_urls_start_with_base_witness:
  "fst (GetVersion origin_world mirror0 Map.empty ''registry.example'' ''hashicorp'' ''aws'' ''5.0.0'')
     = Inr doc_rewritten \<and>
   (\<exists>data r r'.
      (case storage_GetVersion origin_world (storage mirror0) Map.empty
              ''registry.example'' ''hashicorp'' ''aws'' ''5.0.0'' of
         Inr cachedData \<Rightarrow> data = cachedData
       | Inl err \<Rightarrow>
           (\<exists>response.
              FetchVersion origin_world (upstream mirror0)
                ''registry.example'' ''hashicorp'' ''aws'' ''5.0.0'' = Inr response \<and>
              marshalVersion origin_world response = Some data)) \<and>
      unmarshalVersion origin_world data = Some r \<and>
      marshalVersion origin_world r' = Some doc_rewritten \<and>
      list_all2 (\<lambda>e e'. fst e' = fst e \<and>
                   (if URL (snd e) = [] then snd e' = snd e
                    else URL (snd e')
                           = TrimSuffix (baseURL mirror0) ''/'' @ ''/''
                               @ localPath ''registry.example'' ''hashicorp'' ''aws''
                                   (extractFilename origin_world (URL (snd e))) \<and>
                         HasPrefix (URL (snd e')) (baseURL mirror0)))
        (Archives r) (Archives r'))"
proof -
  have a: "fst (GetVersion origin_world mirror0 Map.empty
                  ''registry.example'' ''hashicorp'' ''aws'' ''5.0.0'') = Inr doc_rewritten"
    by code_simp
  from a rewritten_urls_start_with_base[OF a] show ?thesis by (rule conjI)
qed




text \<open>
  Claim C6 (against). The rewrite step applied to its own output changes the
  url when the file name taken from the rewritten url is not the file name it
  was built from: here the first application gives the url ending in
  \<open>a?b.zip\<close> and the second the url ending in \<open>a\<close>.
\<close>

theorem rewrite_not_idempotent_counterexample:
  "fst (rewriteArchiveURLsWithH1 query_world mirror0 Map.empty
          ''registry.example'' ''hashicorp'' ''aws'' doc_q0) = Inr doc_q1 \<and>
   fst (rewriteArchiveURLsWithH1 query_world mirror0
          (snd (rewriteArchiveURLsWithH1 query_world mirror0 Map.empty
                  ''registry.example'' ''hashicorp'' ''aws'' doc_q0))
          ''registry.example'' ''hashicorp'' ''aws'' doc_q1) = Inr doc_q2 \<and>
   doc_q2 \<noteq> doc_q1"
  by code_simp

lemma addH1_idem: "HasPrefix g ''h1:'' \<Longrightarrow> addH1 (addH1 hs g) g = addH1 hs g"
  by (auto simp: addH1_def)

lemma rewrite_entry_nonempty:
  assumes "URL (snd e) \<noteq> []"
  shows "fst (rewrite_entry w m h ns t d e) =
           (fst e,
            (case GetH1Hash w (storage m) d (localPath h ns t (extractFilename w (URL (snd e)))) of
               Inl err \<Rightarrow>
                 (snd e)\<lparr>URL := TrimSuffix (baseURL m) ''/'' @ ''/''
                                 @ localPath h ns t (extractFilename w (URL (snd e)))\<rparr>
             | Inr g \<Rightarrow>
                 if g \<noteq> []
                 then (snd e)\<lparr>URL := TrimSuffix (baseURL m) ''/'' @ ''/''
                                      @ localPath h ns t (extractFilename w (URL (snd e))),
                               Hashes := addH1 (Hashes (snd e)) g\<rparr>
                 else (snd e)\<lparr>URL := TrimSuffix (baseURL m) ''/'' @ ''/''
                                      @ localPath h ns t (extractFilename w (URL (snd e)))\<rparr>))"
proof -
  define ap where "ap = localPath h ns t (extractFilename w (URL (snd e)))"
  have "agree_off_upstream d (snd (PutUpstreamURL w (storage m) d ap (URL (snd e))))"
    by (rule PutUpstreamURL_agree)
  then have "GetH1Hash w (storage m) d ap
               = GetH1Hash w (storage m) (snd (PutUpstreamURL w (storage m) d ap (URL (snd e)))) ap"
    by (rule GetH1Hash_agree)
  then show ?thesis using assms
    by (simp add: rewrite_entry_def Let_def ap_def split: sum.splits)
qed

lemma rewrite_entry_idem:
  assumes fn: "extractFilename w (TrimSuffix (baseURL m) ''/'' @ ''/''
                 @ localPath h ns t (extractFilename w (URL (snd e))))
               = extractFilename w (URL (snd e))"
      and h1: "\<forall>g. GetH1Hash w (storage m) d (localPath h ns t (extractFilename w (URL (snd e)))) = Inr g
                 \<longrightarrow> g = [] \<or> HasPrefix g ''h1:''"
  shows "fst (rewrite_entry w m h ns t d (fst (rewrite_entry w m h ns t d e)))
           = fst (rewrite_entry w m h ns t d e)"
proof (cases "URL (snd e) = []")
  case True
  then show ?thesis by (simp add: rewrite_entry_def Let_def)
next
  case False
  define ap where "ap = localPath h ns t (extractFilename w (URL (snd e)))"
  define u1 where "u1 = TrimSuffix (baseURL m) ''/'' @ ''/'' @ ap"
  define G where "G = GetH1Hash w (storage m) d ap"
  define e1 where "e1 = fst (rewrite_entry w m h ns t d e)"
  have u1: "u1 \<noteq> []" by (simp add: u1_def)
  have f1: "extractFilename w u1 = extractFilename w (URL (snd e))"
    using fn by (simp add: u1_def ap_def)
  have e1: "e1 = (fst e, (case G of Inl err \<Rightarrow> (snd e)\<lparr>URL := u1\<rparr>
                          | Inr g \<Rightarrow> if g \<noteq> [] then (snd e)\<lparr>URL := u1, Hashes := addH1 (Hashes (snd e)) g\<rparr>
                                    else (snd e)\<lparr>URL := u1\<rparr>))"
    unfolding e1_def G_def u1_def ap_def by (rule rewrite_entry_nonempty[OF False])
  have url1: "URL (snd e1) = u1" by (simp add: e1 split: sum.splits)
  then have ne1: "URL (snd e1) \<noteq> []" using u1 by simp
  have ap1: "localPath h ns t (extractFilename w (URL (snd e1))) = ap"
    by (simp add: url1 f1 ap_def)
  have e2: "fst (rewrite_entry w m h ns t d e1) =
              (fst e1, (case G of Inl err \<Rightarrow> (snd e1)\<lparr>URL := u1\<rparr>
                          | Inr g \<Rightarrow> if g \<noteq> [] then (snd e1)\<lparr>URL := u1, Hashes := addH1 (Hashes (snd e1)) g\<rparr>
                                    else (snd e1)\<lparr>URL := u1\<rparr>))"
    using rewrite_entry_nonempty[OF ne1, of w m h ns t d] unfolding ap1 G_def u1_def by simp
  have hs: "G = Inr g \<Longrightarrow> g \<noteq> [] \<Longrightarrow> HasPrefix g ''h1:''" for g
    using h1 by (auto simp: G_def ap_def)
  have "fst (rewrite_entry w m h ns t d e1) = e1"
  proof (cases G)
    case (Inl err)
    then show ?thesis by (simp add: e2) (simp add: e1)
  next
    case (Inr g)
    show ?thesis
    proof (cases "g = []")
      case True
      then show ?thesis using Inr by (simp add: e2) (simp add: e1)
    next
      case gne: False
      then have "HasPrefix g ''h1:''" using hs Inr by simp
      then show ?thesis using Inr gne by (simp add: e2) (simp add: e1 addH1_idem)
    qed
  qed
  then show ?thesis by (simp add: e1_def)
qed


lemma rewrite_fst:
  "fst (rewriteArchiveURLsWithH1 w m d h ns t data) =
     (case unmarshalVersion w data of
        None \<Rightarrow> Inl (Failure ''failed to parse version response'')
      | Some r \<Rightarrow>
          (case marshalVersion w
                  (r\<lparr>Archives := map (\<lambda>e. fst (rewrite_entry w m h ns t d e)) (Archives r)\<rparr>) of
             None \<Rightarrow> Inl (Failure ''failed to marshal rewritten response'')
           | Some b \<Rightarrow> Inr b))"
  using rewrite_entries_map[of w m h ns t d]
  by (simp add: rewriteArchiveURLsWithH1_def split_def Let_def split: option.splits)

text \<open>
  Claim C6 (amended). Let the rewrite step return \<open>out\<close>, and let the codec
  decode \<open>out\<close> to a manifest that has exactly the entries of any manifest
  encoded as \<open>out\<close>, in whatever order, and that is encoded as \<open>out\<close> again
  (as \<open>encoding/json\<close> does on a map, whose keys it writes sorted). If for
  every entry with a non-empty url the file name taken from the rewritten
  url is the file name the url was built from and the stored h1 value of the
  archive is empty or starts with \<open>h1:\<close>, then the rewrite step applied to
  \<open>out\<close> (on the disk the first application left) returns \<open>out\<close> again: no
  url changes and no second h1 entry is appended.
\<close>

theorem rewrite_idempotent:
  assumes first: "rewriteArchiveURLsWithH1 w m disk hostname namespace providerType data
                    = (Inr out, disk1)"
      and codec: "\<forall>r. marshalVersion w r = Some out \<longrightarrow>
                    (\<exists>r'. unmarshalVersion w out = Some r' \<and>
                          set (Archives r') = set (Archives r) \<and>
                          marshalVersion w r' = Some out)"
      and ok: "\<forall>r. unmarshalVersion w data = Some r \<longrightarrow>
                 (\<forall>e\<in>set (Archives r). URL (snd e) \<noteq> [] \<longrightarrow>
                    extractFilename w (TrimSuffix (baseURL m) ''/'' @ ''/''
                        @ localPath hostname namespace providerType (extractFilename w (URL (snd e))))
                      = extractFilename w (URL (snd e)) \<and>
                    (\<forall>g. GetH1Hash w (storage m) disk
                            (localPath hostname namespace providerType
                               (extractFilename w (URL (snd e)))) = Inr g
                          \<longrightarrow> g = [] \<or> HasPrefix g ''h1:''))"
  shows "fst (rewriteArchiveURLsWithH1 w m disk1 hostname namespace providerType out) = Inr out"
proof -
  have f: "fst (rewriteArchiveURLsWithH1 w m disk hostname namespace providerType data) = Inr out"
    using first by simp
  obtain r0 where u0: "unmarshalVersion w data = Some r0"
    and m0: "marshalVersion w
               (r0\<lparr>Archives := map (\<lambda>e. fst (rewrite_entry w m hostname namespace providerType disk e))
                                  (Archives r0)\<rparr>) = Some out"
    using rewrite_result[OF f] by blast
  define es1 where
    "es1 = map (\<lambda>e. fst (rewrite_entry w m hostname namespace providerType disk e)) (Archives r0)"
  define r1 where "r1 = r0\<lparr>Archives := es1\<rparr>"
  have m1: "marshalVersion w r1 = Some out" using m0 by (simp add: r1_def es1_def)
  have a1: "Archives r1 = es1" by (simp add: r1_def)
  obtain r2 where u2: "unmarshalVersion w out = Some r2"
    and s2: "set (Archives r2) = set es1"
    and m2: "marshalVersion w r2 = Some out"
    using codec[rule_format, OF m1] a1 by auto
  have d1: "disk1 = snd (rewriteArchiveURLsWithH1 w m disk hostname namespace providerType data)"
    using first by simp
  have a: "agree_off_upstream disk1 disk"
    unfolding d1 by (rule agree_sym) (rule rewrite_frame)
  have step: "fst (rewrite_entry w m hostname namespace providerType disk1 x)
                = fst (rewrite_entry w m hostname namespace providerType disk x)" for x
    using rewrite_entry_agree[OF a, of w m hostname namespace providerType x] by simp
  have idem: "fst (rewrite_entry w m hostname namespace providerType disk
                    (fst (rewrite_entry w m hostname namespace providerType disk e)))
                = fst (rewrite_entry w m hostname namespace providerType disk e)"
    if e: "e \<in> set (Archives r0)" for e
  proof (cases "URL (snd e) = []")
    case True
    then show ?thesis by (simp add: rewrite_entry_def Let_def)
  next
    case False
    from ok u0 e False have
      "extractFilename w (TrimSuffix (baseURL m) ''/'' @ ''/''
          @ localPath hostname namespace providerType (extractFilename w (URL (snd e))))
        = extractFilename w (URL (snd e))"
      "\<forall>g. GetH1Hash w (storage m) disk
              (localPath hostname namespace providerType (extractFilename w (URL (snd e)))) = Inr g
            \<longrightarrow> g = [] \<or> HasPrefix g ''h1:''"
      by blast+
    then show ?thesis by (rule rewrite_entry_idem)
  qed
  have fixed: "fst (rewrite_entry w m hostname namespace providerType disk1 x) = x"
    if x: "x \<in> set es1" for x
  proof -
    from x obtain e where "e \<in> set (Archives r0)"
      and "x = fst (rewrite_entry w m hostname namespace providerType disk e)"
      by (auto simp: es1_def)
    then show ?thesis using idem[of e] by (simp add: step)
  qed
  have "map (\<lambda>e. fst (rewrite_entry w m hostname namespace providerType disk1 e)) (Archives r2)
          = Archives r2"
    by (rule map_idI) (simp add: s2 fixed)
  then have "r2\<lparr>Archives := map (\<lambda>e. fst (rewrite_entry w m hostname namespace providerType disk1 e))
                               (Archives r2)\<rparr> = r2"
    by simp
  then show ?thesis using u2 m2 by (simp add: rewrite_fst)
qed

theorem rewrite_idempotent_witness:
  "fst (rewriteArchiveURLsWithH1 two_platform_world mirror0 disk_with_h1
          ''registry.example'' ''hashicorp'' ''aws'' doc2_raw) = Inr doc2_rewritten \<and>
   unmarshalVersion two_platform_world doc2_rewritten = Some \<lparr>Archives = entries2_rewritten\<rparr> \<and>
   fst (rewriteArchiveURLsWithH1 two_platform_world mirror0
          (snd (rewriteArchiveURLsWithH1 two_platform_world mirror0 disk_with_h1
                  ''registry.example'' ''hashicorp'' ''aws'' doc2_raw))
          ''registry.example'' ''hashicorp'' ''aws'' doc2_rewritten) = Inr doc2_rewritten"
proof -
  have f: "fst (rewriteArchiveURLsWithH1 two_platform_world mirror0 disk_with_h1
          ''registry.example'' ''hashicorp'' ''aws'' doc2_raw) = Inr doc2_rewritten"
    by code_simp
  then have first: "rewriteArchiveURLsWithH1 two_platform_world mirror0 disk_with_h1
          ''registry.example'' ''hashicorp'' ''aws'' doc2_raw
        = (Inr doc2_rewritten,
           snd (rewriteArchiveURLsWithH1 two_platform_world mirror0 disk_with_h1
                  ''registry.example'' ''hashicorp'' ''aws'' doc2_raw))"
    by (metis prod.collapse)
  have ne: "doc2_raw \<noteq> doc2_rewritten" by code_simp
  have un: "unmarshalVersion two_platform_world doc2_rewritten = Some \<lparr>Archives = entries2_rewritten\<rparr>"
    by code_simp
  have mw: "marshalVersion two_platform_world = marshal2"
    by (simp add: two_platform_world_def)
  have mr: "marshal2 \<lparr>Archives = entries2_rewritten\<rparr> = Some doc2_rewritten" by code_simp
  have codec: "\<forall>r. marshalVersion two_platform_world r = Some doc2_rewritten \<longrightarrow>
                 (\<exists>r'. unmarshalVersion two_platform_world doc2_rewritten = Some r' \<and>
                       set (Archives r') = set (Archives r) \<and>
                       marshalVersion two_platform_world r' = Some doc2_rewritten)"
  proof (intro allI impI)
    fix r :: VersionResponse
    assume "marshalVersion two_platform_world r = Some doc2_rewritten"
    then have "set (Archives r) = set entries2_rewritten"
      using ne by (simp add: mw marshal2_def split: if_splits)
    then show "\<exists>r'. unmarshalVersion two_platform_world doc2_rewritten = Some r' \<and>
                    set (Archives r') = set (Archives r) \<and>
                    marshalVersion two_platform_world r' = Some doc2_rewritten"
      using un mr by (simp add: mw)
  qed
  have u: "unmarshalVersion two_platform_world doc2_raw = Some \<lparr>Archives = entries2_raw\<rparr>"
    by code_simp
  have fnl: "extractFilename two_platform_world (TrimSuffix (baseURL mirror0) ''/'' @ ''/''
                 @ localPath ''registry.example'' ''hashicorp'' ''aws''
                     (extractFilename two_platform_world origin_zip))
               = extractFilename two_platform_world origin_zip"
    by code_simp
  have fnd: "extractFilename two_platform_world (TrimSuffix (baseURL mirror0) ''/'' @ ''/''
                 @ localPath ''registry.example'' ''hashicorp'' ''aws''
                     (extractFilename two_platform_world origin_zip_darwin))
               = extractFilename two_platform_world origin_zip_darwin"
    by code_simp
  have ghl: "GetH1Hash two_platform_world (storage mirror0) disk_with_h1
              (localPath ''registry.example'' ''hashicorp'' ''aws''
                 (extractFilename two_platform_world origin_zip)) = Inr h1_of_zip"
    by code_simp
  have ghd: "GetH1Hash two_platform_world (storage mirror0) disk_with_h1
              (localPath ''registry.example'' ''hashicorp'' ''aws''
                 (extractFilename two_platform_world origin_zip_darwin)) = Inr []"
    by code_simp
  have hp: "HasPrefix h1_of_zip ''h1:''" by code_simp
  have ok: "\<forall>r. unmarshalVersion two_platform_world doc2_raw = Some r \<longrightarrow>
                 (\<forall>e\<in>set (Archives r). URL (snd e) \<noteq> [] \<longrightarrow>
                    extractFilename two_platform_world (TrimSuffix (baseURL mirror0) ''/'' @ ''/''
                        @ localPath ''registry.example'' ''hashicorp'' ''aws''
                            (extractFilename two_platform_world (URL (snd e))))
                      = extractFilename two_platform_world (URL (snd e)) \<and>
                    (\<forall>g. GetH1Hash two_platform_world (storage mirror0) disk_with_h1
                            (localPath ''registry.example'' ''hashicorp'' ''aws''
                               (extractFilename two_platform_world (URL (snd e)))) = Inr g
                          \<longrightarrow> g = [] \<or> HasPrefix g ''h1:''))"
    using fnl fnd ghl ghd hp by (simp add: u entries2_raw_def)
  from f un rewrite_idempotent[OF first codec ok] show ?thesis by (intro conjI)
qed



end
